theory Spec2Isabelle
  imports Main "HOL-Library.Word" "HOL-Library.Sublist" "HOL-Library.AList"
begin

unbundle bit_operations_syntax

section \<open>The registry underneath the value store\<close>

text \<open>
  \<^verbatim>\<open>rlz_value_store_registry.cc\<close> keeps all its state in the current user's registry
  hive and reaches it only through \<^verbatim>\<open>base::win::RegKey\<close>, a class of the base library
  that the repository builds on. The hive is modelled as an association list from key
  paths (the components between backslashes, below \<^verbatim>\<open>HKEY_CURRENT_USER\<close>) to the
  key's values, themselves an association list from value names to typed data. The value
  named by the empty string is the key's default value, which is what the Win32 calls
  address when the name pointer is \<^verbatim>\<open>NULL\<close>. Names are compared as they are written;
  the store writes its own names in one spelling only.

  The model takes a hive in which every key can be created and every value written, as
  it is for a caller that holds write access. The store's clear operations verify their
  deletions, and \<^verbatim>\<open>CollectGarbage\<close> tolerates deletions that fail: to give those paths
  something to do, the registry carries two lists of entries on which the system does
  not carry out a deletion, each with the status that the call then reports (which can
  be \<^verbatim>\<open>ERROR_SUCCESS\<close>, for a backing store that drops the deletion silently).
\<close>

type_synonym path = "string list"

datatype regval = REG_SZ string | REG_DWORD "32 word" | REG_QWORD "64 word"

datatype LSTATUS =
    ERROR_SUCCESS
  | ERROR_FILE_NOT_FOUND
  | ERROR_ACCESS_DENIED
  | ERROR_INVALID_HANDLE
  | ERROR_MORE_DATA
  | ERROR_CANTREAD
  | ERROR_NO_MORE_ITEMS

type_synonym REGSAM = "32 word"

type_synonym HKEY = "path option"

record registry =
  hive :: "(path \<times> (string \<times> regval) list) list"
  undeletable_values :: "((path \<times> string) \<times> LSTATUS) list"
  undeletable_keys :: "(path \<times> LSTATUS) list"

definition KEY_QUERY_VALUE :: REGSAM where "KEY_QUERY_VALUE = 0x0001"
definition KEY_SET_VALUE :: REGSAM where "KEY_SET_VALUE = 0x0002"
definition KEY_CREATE_SUB_KEY :: REGSAM where "KEY_CREATE_SUB_KEY = 0x0004"
definition KEY_ENUMERATE_SUB_KEYS :: REGSAM where "KEY_ENUMERATE_SUB_KEYS = 0x0008"
definition KEY_NOTIFY :: REGSAM where "KEY_NOTIFY = 0x0010"
definition KEY_CREATE_LINK :: REGSAM where "KEY_CREATE_LINK = 0x0020"
definition STANDARD_RIGHTS_READ :: REGSAM where "STANDARD_RIGHTS_READ = 0x00020000"
definition STANDARD_RIGHTS_WRITE :: REGSAM where "STANDARD_RIGHTS_WRITE = 0x00020000"

definition KEY_READ :: REGSAM where
  "KEY_READ = STANDARD_RIGHTS_READ OR KEY_QUERY_VALUE OR KEY_ENUMERATE_SUB_KEYS OR KEY_NOTIFY"

definition KEY_WRITE :: REGSAM where
  "KEY_WRITE = STANDARD_RIGHTS_WRITE OR KEY_SET_VALUE OR KEY_CREATE_SUB_KEY"

text \<open>The size in bytes of a value's data: a string is stored as wide characters with
  its terminator.\<close>

fun data_size :: "regval \<Rightarrow> nat" where
  "data_size (REG_SZ s) = 2 * (length s + 1)"
| "data_size (REG_DWORD _) = 4"
| "data_size (REG_QWORD _) = 8"

definition key_exists :: "registry \<Rightarrow> path \<Rightarrow> bool" where
  "key_exists r p = (map_of (hive r) p \<noteq> None)"

definition key_values :: "registry \<Rightarrow> path \<Rightarrow> (string \<times> regval) list" where
  "key_values r p = (case map_of (hive r) p of None \<Rightarrow> [] | Some vs \<Rightarrow> vs)"

definition is_child :: "path \<Rightarrow> path \<Rightarrow> bool" where
  "is_child p k = (k \<noteq> [] \<and> butlast k = p)"

definition add_key :: "path \<Rightarrow> (path \<times> (string \<times> regval) list) list
    \<Rightarrow> (path \<times> (string \<times> regval) list) list" where
  "add_key p h = (if map_of h p = None then h @ [(p, [])] else h)"

text \<open>Creating a key creates every missing key on the way to it.\<close>

definition create_path :: "path \<Rightarrow> (path \<times> (string \<times> regval) list) list
    \<Rightarrow> (path \<times> (string \<times> regval) list) list" where
  "create_path p h = fold add_key (tl (prefixes p)) h"

text \<open>Deleting a key takes its whole subtree with it (\<^verbatim>\<open>RegKey::DeleteKey\<close> is
  recursive).\<close>

definition remove_tree :: "path \<Rightarrow> (path \<times> (string \<times> regval) list) list
    \<Rightarrow> (path \<times> (string \<times> regval) list) list" where
  "remove_tree p h = filter (\<lambda>kv. \<not> prefix p (fst kv)) h"

subsection \<open>The operations of RegKey\<close>

text \<open>A \<^verbatim>\<open>RegKey\<close> object is its handle: the path of the key it has open, or
  \<open>None\<close> when it is not valid.\<close>

definition RegKey_Create :: "path \<Rightarrow> REGSAM \<Rightarrow> registry \<Rightarrow> LSTATUS \<times> HKEY \<times> registry" where
  "RegKey_Create p access r = (ERROR_SUCCESS, Some p, r\<lparr>hive := create_path p (hive r)\<rparr>)"

definition RegKey_Open :: "path \<Rightarrow> REGSAM \<Rightarrow> registry \<Rightarrow> LSTATUS \<times> HKEY" where
  "RegKey_Open p access r =
     (if p = [] \<or> key_exists r p then (ERROR_SUCCESS, Some p) else (ERROR_FILE_NOT_FOUND, None))"

definition RegKey_Valid :: "HKEY \<Rightarrow> bool" where
  "RegKey_Valid key = (key \<noteq> None)"

definition RegKey_WriteValue :: "HKEY \<Rightarrow> string \<Rightarrow> regval \<Rightarrow> registry \<Rightarrow> LSTATUS \<times> registry" where
  "RegKey_WriteValue key name v r =
     (case key of
        None \<Rightarrow> (ERROR_INVALID_HANDLE, r)
      | Some p \<Rightarrow>
          if key_exists r p
          then (ERROR_SUCCESS, r\<lparr>hive := AList.update p (AList.update name v (key_values r p)) (hive r)\<rparr>)
          else (ERROR_FILE_NOT_FOUND, r))"

text \<open>The raw read into a caller's buffer of \<open>cb\<close> bytes.\<close>

definition RegKey_ReadValue :: "HKEY \<Rightarrow> string \<Rightarrow> nat \<Rightarrow> registry \<Rightarrow> LSTATUS \<times> regval option" where
  "RegKey_ReadValue key name cb r =
     (case key of
        None \<Rightarrow> (ERROR_INVALID_HANDLE, None)
      | Some p \<Rightarrow>
          (case map_of (key_values r p) name of
             None \<Rightarrow> (ERROR_FILE_NOT_FOUND, None)
           | Some v \<Rightarrow> if data_size v \<le> cb then (ERROR_SUCCESS, Some v) else (ERROR_MORE_DATA, None)))"

definition RegKey_ReadValueDW :: "HKEY \<Rightarrow> string \<Rightarrow> registry \<Rightarrow> LSTATUS \<times> 32 word option" where
  "RegKey_ReadValueDW key name r =
     (case RegKey_ReadValue key name 4 r of
        (ERROR_SUCCESS, Some (REG_DWORD d)) \<Rightarrow> (ERROR_SUCCESS, Some d)
      | (ERROR_SUCCESS, _) \<Rightarrow> (ERROR_CANTREAD, None)
      | (st, _) \<Rightarrow> (st, None))"

definition RegKey_ReadInt64 :: "HKEY \<Rightarrow> string \<Rightarrow> registry \<Rightarrow> LSTATUS \<times> 64 word option" where
  "RegKey_ReadInt64 key name r =
     (case RegKey_ReadValue key name 8 r of
        (ERROR_SUCCESS, Some (REG_QWORD q)) \<Rightarrow> (ERROR_SUCCESS, Some q)
      | (ERROR_SUCCESS, _) \<Rightarrow> (ERROR_CANTREAD, None)
      | (st, _) \<Rightarrow> (st, None))"

definition RegKey_ReadString :: "HKEY \<Rightarrow> string \<Rightarrow> registry \<Rightarrow> LSTATUS \<times> string option" where
  "RegKey_ReadString key name r =
     (case key of
        None \<Rightarrow> (ERROR_INVALID_HANDLE, None)
      | Some p \<Rightarrow>
          (case map_of (key_values r p) name of
             None \<Rightarrow> (ERROR_FILE_NOT_FOUND, None)
           | Some (REG_SZ s) \<Rightarrow> (ERROR_SUCCESS, Some s)
           | Some _ \<Rightarrow> (ERROR_CANTREAD, None)))"

definition RegKey_DeleteValue :: "HKEY \<Rightarrow> string \<Rightarrow> registry \<Rightarrow> LSTATUS \<times> registry" where
  "RegKey_DeleteValue key name r =
     (case key of
        None \<Rightarrow> (ERROR_INVALID_HANDLE, r)
      | Some p \<Rightarrow>
          (case map_of (key_values r p) name of
             None \<Rightarrow> (ERROR_FILE_NOT_FOUND, r)
           | Some _ \<Rightarrow>
               (case map_of (undeletable_values r) (p, name) of
                  Some st \<Rightarrow> (st, r)
                | None \<Rightarrow>
                    (ERROR_SUCCESS,
                     r\<lparr>hive := AList.update p (AList.delete name (key_values r p)) (hive r)\<rparr>))))"

definition RegKey_DeleteKey :: "HKEY \<Rightarrow> path \<Rightarrow> registry \<Rightarrow> LSTATUS \<times> registry" where
  "RegKey_DeleteKey key name r =
     (case key of
        None \<Rightarrow> (ERROR_INVALID_HANDLE, r)
      | Some p \<Rightarrow>
          if name = [] \<or> \<not> key_exists r (p @ name) then (ERROR_FILE_NOT_FOUND, r)
          else
            (case map_of (undeletable_keys r) (p @ name) of
               Some st \<Rightarrow> (st, r)
             | None \<Rightarrow> (ERROR_SUCCESS, r\<lparr>hive := remove_tree (p @ name) (hive r)\<rparr>)))"

definition SubkeyCount :: "registry \<Rightarrow> path \<Rightarrow> nat" where
  "SubkeyCount r p = length (filter (\<lambda>kv. is_child p (fst kv)) (hive r))"

definition ValueCount :: "registry \<Rightarrow> path \<Rightarrow> nat" where
  "ValueCount r p = length (key_values r p)"

text \<open>\<^verbatim>\<open>RegEnumValueA\<close> with a name buffer of \<open>cb\<close> characters: the name of the value
  at \<open>index\<close>, which needs room for its terminator.\<close>

definition RegEnumValueA :: "HKEY \<Rightarrow> nat \<Rightarrow> nat \<Rightarrow> registry \<Rightarrow> LSTATUS \<times> string" where
  "RegEnumValueA key index cb r =
     (case key of
        None \<Rightarrow> (ERROR_INVALID_HANDLE, [])
      | Some p \<Rightarrow>
          if index < length (key_values r p)
          then (if length (fst (key_values r p ! index)) < cb
                then (ERROR_SUCCESS, fst (key_values r p ! index))
                else (ERROR_MORE_DATA, []))
          else (ERROR_NO_MORE_ITEMS, []))"

text \<open>The test on an access mask that decides between creating and opening a key; the
  source makes it in \<^verbatim>\<open>GetRegKey\<close> and \<^verbatim>\<open>GetEventsRegKey\<close>, and the constructor of
  \<^verbatim>\<open>RegKey\<close> makes the same.\<close>

definition wants_create :: "REGSAM \<Rightarrow> bool" where
  "wants_create access = (access AND (KEY_SET_VALUE OR KEY_CREATE_SUB_KEY OR KEY_CREATE_LINK) \<noteq> 0)"

text \<open>The constructor \<^verbatim>\<open>RegKey(rootkey, subkey, access)\<close>: below a valid root it creates
  or opens the subkey, as the access mask asks.\<close>

definition HKEY_CURRENT_USER :: HKEY where
  "HKEY_CURRENT_USER = Some []"

definition RegKey_ctor :: "HKEY \<Rightarrow> path \<Rightarrow> REGSAM \<Rightarrow> registry \<Rightarrow> HKEY \<times> registry" where
  "RegKey_ctor rootkey subkey access r =
     (case rootkey of
        None \<Rightarrow> (None, r)
      | Some p \<Rightarrow>
          if wants_create access
          then (case RegKey_Create (p @ subkey) access r of (ret, key, r') \<Rightarrow> (key, r'))
          else (case RegKey_Open (p @ subkey) access r of (ret, key) \<Rightarrow> (key, r)))"

definition RegistryKeyIterator_SubkeyCount :: "HKEY \<Rightarrow> path \<Rightarrow> registry \<Rightarrow> nat" where
  "RegistryKeyIterator_SubkeyCount root_key key_name r =
     (case root_key of None \<Rightarrow> 0 | Some p \<Rightarrow> SubkeyCount r (p @ key_name))"

definition RegistryValueIterator_ValueCount :: "HKEY \<Rightarrow> path \<Rightarrow> registry \<Rightarrow> nat" where
  "RegistryValueIterator_ValueCount root_key key_name r =
     (case root_key of None \<Rightarrow> 0 | Some p \<Rightarrow> ValueCount r (p @ key_name))"

section \<open>The value store on the registry\<close>

subsection \<open>Identifiers and key names\<close>

text \<open>
  \<^verbatim>\<open>Product\<close> is a C++ enumeration, so a caller can pass a value that is none of its
  enumerators; \<open>OTHER_PRODUCT\<close> stands for those. \<^verbatim>\<open>AccessPoint\<close> is an enumeration
  too, declared with its name table in files that are not among the sources: it is a
  number here, and \<^verbatim>\<open>NO_ACCESS_POINT\<close> is its first value, which terminates access
  point arrays.
\<close>

datatype Product =
    IE_TOOLBAR | TOOLBAR_NOTIFIER | PACK | DESKTOP | CHROME | FF_TOOLBAR | QSB_WIN
  | WEBAPPS | PINYIN_IME | PARTNER | OTHER_PRODUCT int

type_synonym AccessPoint = nat

definition NO_ACCESS_POINT :: AccessPoint where
  "NO_ACCESS_POINT = 0"

text \<open>
  What the two source files use of the rest of the library, whose files are not among the
  sources, is collected in one record and passed to the functions that need it: the name
  table of the access points and their last enumerator, the constants of
  \<^verbatim>\<open>lib_values.h\<close>, and the two encoders that render the pending events and the RLZ
  values of a list of access points as CGI fragments.
\<close>

record rlz_lib =
  GetAccessPointName :: "AccessPoint \<Rightarrow> string option"
  LAST_ACCESS_POINT :: AccessPoint
  kEventsPingInterval :: "64 word"
  kNoEventsPingInterval :: "64 word"
  kMaxRlzLength :: nat
  kMaxCgiLength :: nat
  kFinancialPingPath :: string
  kProductSignatureCgiVariable :: string
  kProductBrandCgiVariable :: string
  kProductIdCgiVariable :: string
  kProductLanguageCgiVariable :: string
  kMachineIdCgiVariable :: string
  EventsAsCgi :: "string list \<Rightarrow> string"
  GetPingParams :: "string \<Rightarrow> registry \<Rightarrow> Product \<Rightarrow> AccessPoint list \<Rightarrow> nat \<Rightarrow> bool \<times> string"

definition kLibKeyName :: path where
  "kLibKeyName = [''Software'', ''Google'', ''Common'', ''Rlz'']"

definition kGoogleKeyName :: path where
  "kGoogleKeyName = [''Software'', ''Google'']"

definition kGoogleCommonKeyName :: path where
  "kGoogleCommonKeyName = [''Software'', ''Google'', ''Common'']"

definition kRlzsSubkeyName :: string where "kRlzsSubkeyName = ''RLZs''"
definition kEventsSubkeyName :: string where "kEventsSubkeyName = ''Events''"
definition kStatefulEventsSubkeyName :: string where "kStatefulEventsSubkeyName = ''StatefulEvents''"
definition kPingTimesSubkeyName :: string where "kPingTimesSubkeyName = ''PTimes''"

fun GetProductName :: "Product \<Rightarrow> string option" where
  "GetProductName IE_TOOLBAR = Some ''T''"
| "GetProductName TOOLBAR_NOTIFIER = Some ''P''"
| "GetProductName PACK = Some ''U''"
| "GetProductName DESKTOP = Some ''D''"
| "GetProductName CHROME = Some ''C''"
| "GetProductName FF_TOOLBAR = Some ''B''"
| "GetProductName QSB_WIN = Some ''K''"
| "GetProductName WEBAPPS = Some ''W''"
| "GetProductName PINYIN_IME = Some ''N''"
| "GetProductName PARTNER = Some ''V''"
| "GetProductName (OTHER_PRODUCT _) = None"

text \<open>A name pointer as a value name: \<^verbatim>\<open>NULL\<close> addresses the default value.\<close>

definition value_name :: "string option \<Rightarrow> string" where
  "value_name n = (case n of None \<Rightarrow> [] | Some s \<Rightarrow> s)"

text \<open>The supplementary brand, when there is one, adds the path component
  \<^verbatim>\<open>_<brand>\<close> (the model takes a brand that holds no backslash).\<close>

definition AppendBrandToString :: "string \<Rightarrow> path \<Rightarrow> path" where
  "AppendBrandToString brand str = (if brand = [] then str else str @ [CHR ''_'' # brand])"

definition GetRegKey :: "string \<Rightarrow> string \<Rightarrow> REGSAM \<Rightarrow> registry \<Rightarrow> bool \<times> HKEY \<times> registry" where
  "GetRegKey brand name access r =
     (let key_location = AppendBrandToString brand (kLibKeyName @ [name]) in
      if wants_create access
      then (case RegKey_Create key_location access r of (ret, key, r') \<Rightarrow> (ret = ERROR_SUCCESS, key, r'))
      else (case RegKey_Open key_location access r of (ret, key) \<Rightarrow> (ret = ERROR_SUCCESS, key, r)))"

definition GetPingTimesRegKey :: "string \<Rightarrow> REGSAM \<Rightarrow> registry \<Rightarrow> bool \<times> HKEY \<times> registry" where
  "GetPingTimesRegKey brand access r = GetRegKey brand kPingTimesSubkeyName access r"

text \<open>The \<open>product\<close> argument is a pointer in the source: \<open>None\<close> is \<^verbatim>\<open>NULL\<close>. On an
  unknown product the function returns before it touches \<open>key\<close>, which stays invalid.\<close>

definition GetEventsRegKey :: "string \<Rightarrow> string \<Rightarrow> Product option \<Rightarrow> REGSAM \<Rightarrow> registry
    \<Rightarrow> bool \<times> HKEY \<times> registry" where
  "GetEventsRegKey brand event_type product access r =
     (let key_location = AppendBrandToString brand (kLibKeyName @ [event_type]) in
      case (case product of
              None \<Rightarrow> Some key_location
            | Some p \<Rightarrow>
                (case GetProductName p of
                   None \<Rightarrow> None
                 | Some product_name \<Rightarrow> Some (key_location @ [product_name]))) of
        None \<Rightarrow> (False, None, r)
      | Some loc \<Rightarrow>
          if wants_create access
          then (case RegKey_Create loc access r of (ret, key, r') \<Rightarrow> (ret = ERROR_SUCCESS, key, r'))
          else (case RegKey_Open loc access r of (ret, key) \<Rightarrow> (ret = ERROR_SUCCESS, key, r)))"

definition GetAccessPointRlzsRegKey :: "string \<Rightarrow> REGSAM \<Rightarrow> registry \<Rightarrow> bool \<times> HKEY \<times> registry" where
  "GetAccessPointRlzsRegKey brand access r = GetRegKey brand kRlzsSubkeyName access r"

subsection \<open>Helpers of the anonymous namespace\<close>

definition ClearAllProductEventValues :: "string \<Rightarrow> Product \<Rightarrow> string \<Rightarrow> registry \<Rightarrow> bool \<times> registry" where
  "ClearAllProductEventValues brand product key r =
     (case GetProductName product of
        None \<Rightarrow> (False, r)
      | Some product_name \<Rightarrow>
          (let (ok, reg_key, r1) = GetEventsRegKey brand key None KEY_WRITE r;
               (st, r2) = RegKey_DeleteKey reg_key [product_name] r1;
               (product_events, r3) = RegKey_ctor reg_key [product_name] KEY_READ r2
           in if RegKey_Valid product_events then (False, r3) else (True, r3)))"

definition DeleteKeyIfEmpty :: "HKEY \<Rightarrow> path option \<Rightarrow> registry \<Rightarrow> bool \<times> registry" where
  "DeleteKeyIfEmpty root_key key_name r =
     (case key_name of
        None \<Rightarrow> (False, r)
      | Some kn \<Rightarrow>
          (let (key, r1) = RegKey_ctor root_key kn KEY_READ r in
           if \<not> RegKey_Valid key then (True, r1)
           else if RegistryKeyIterator_SubkeyCount root_key kn r1 > 0 then (True, r1)
           else if RegistryValueIterator_ValueCount root_key kn r1 > 0 then (True, r1)
           else
             (let (key', r2) = RegKey_ctor root_key [] KEY_WRITE r1;
                  (st, r3) = RegKey_DeleteKey key' kn r2
              in (st = ERROR_SUCCESS, r3))))"

subsection \<open>Ping times\<close>

definition WritePingTime :: "string \<Rightarrow> Product \<Rightarrow> 64 word \<Rightarrow> registry \<Rightarrow> bool \<times> registry" where
  "WritePingTime brand product time r =
     (let (ok, key, r1) = GetPingTimesRegKey brand KEY_WRITE r in
      if \<not> ok then (False, r1)
      else
        (let (st, r2) = RegKey_WriteValue key (value_name (GetProductName product)) (REG_QWORD time) r1
         in (st = ERROR_SUCCESS, r2)))"

text \<open>\<open>Some t\<close> is the result \<^verbatim>\<open>true\<close> with \<open>t\<close> stored in \<^verbatim>\<open>*time\<close>; \<open>None\<close> is
  \<^verbatim>\<open>false\<close>, which leaves \<^verbatim>\<open>*time\<close> alone.\<close>

definition ReadPingTime :: "string \<Rightarrow> Product \<Rightarrow> registry \<Rightarrow> 64 word option" where
  "ReadPingTime brand product r =
     (let (ok, key, r1) = GetPingTimesRegKey brand KEY_READ r in
      if \<not> ok then None
      else
        (case RegKey_ReadInt64 key (value_name (GetProductName product)) r1 of
           (st, time) \<Rightarrow> if st = ERROR_SUCCESS then time else None))"

definition ClearPingTime :: "string \<Rightarrow> Product \<Rightarrow> registry \<Rightarrow> bool \<times> registry" where
  "ClearPingTime brand product r =
     (let (ok, key, r1) = GetPingTimesRegKey brand KEY_WRITE r;
          value_name' = value_name (GetProductName product);
          (st, r2) = RegKey_DeleteValue key value_name' r1
      in if fst (RegKey_ReadValue key value_name' 8 r2) = ERROR_SUCCESS then (False, r2)
         else (True, r2))"

subsection \<open>RLZ values of access points\<close>

text \<open>
  Modelled from the spec: \<^verbatim>\<open>RegKeyWriteValue\<close> and \<^verbatim>\<open>RegKeyReadValue\<close> are declared in
  \<^verbatim>\<open>string_utils.h\<close>, which is not among the sources. An RLZ entry is keyed by the
  access point's name and holds the RLZ string as its value. The reader gets the
  buffer's size in \<^verbatim>\<open>*value_size\<close> and copies what fits beside the terminator; as its
  caller \<^verbatim>\<open>ReadAccessPointRlz\<close> expects, it fails with the size untouched when there is
  no string to read, and fails with the size set to the length it needs when the string
  does not fit. The model returns the result, the buffer's content and the size.
\<close>

definition RegKeyWriteValue :: "HKEY \<Rightarrow> string \<Rightarrow> string \<Rightarrow> registry \<Rightarrow> bool \<times> registry" where
  "RegKeyWriteValue key name v r =
     (let (st, r') = RegKey_WriteValue key name (REG_SZ v) r in (st = ERROR_SUCCESS, r'))"

definition RegKeyReadValue :: "HKEY \<Rightarrow> string \<Rightarrow> nat \<Rightarrow> registry \<Rightarrow> bool \<times> string \<times> nat" where
  "RegKeyReadValue key name value_size r =
     (case RegKey_ReadString key name r of
        (ERROR_SUCCESS, Some s) \<Rightarrow>
          if length s > value_size then (False, [], length s)
          else (True, take (value_size - 1) s, value_size)
      | _ \<Rightarrow> (False, [], value_size))"

definition WriteAccessPointRlz :: "rlz_lib \<Rightarrow> string \<Rightarrow> AccessPoint \<Rightarrow> string \<Rightarrow> registry
    \<Rightarrow> bool \<times> registry" where
  "WriteAccessPointRlz L brand access_point new_rlz r =
     (case GetAccessPointName L access_point of
        None \<Rightarrow> (False, r)
      | Some access_point_name \<Rightarrow>
          (let (ok, key, r1) = GetAccessPointRlzsRegKey brand KEY_WRITE r in
           RegKeyWriteValue key access_point_name new_rlz r1))"

text \<open>The caller's buffer \<open>rlz\<close> of \<open>rlz_size\<close> characters goes in with its content and
  comes back with what the call left in it.\<close>

definition ReadAccessPointRlz :: "rlz_lib \<Rightarrow> string \<Rightarrow> AccessPoint \<Rightarrow> string \<Rightarrow> nat \<Rightarrow> registry
    \<Rightarrow> bool \<times> string" where
  "ReadAccessPointRlz L brand access_point rlz rlz_size r =
     (case GetAccessPointName L access_point of
        None \<Rightarrow> (False, rlz)
      | Some access_point_name \<Rightarrow>
          (let (ok, key, r1) = GetAccessPointRlzsRegKey brand KEY_READ r;
               (found, rlz', size') = RegKeyReadValue key access_point_name rlz_size r1
           in if \<not> found then (if size' > rlz_size then (False, []) else (True, []))
              else (True, rlz')))"

definition ClearAccessPointRlz :: "rlz_lib \<Rightarrow> string \<Rightarrow> AccessPoint \<Rightarrow> registry \<Rightarrow> bool \<times> registry" where
  "ClearAccessPointRlz L brand access_point r =
     (case GetAccessPointName L access_point of
        None \<Rightarrow> (False, r)
      | Some access_point_name \<Rightarrow>
          (let (ok, key, r1) = GetAccessPointRlzsRegKey brand KEY_WRITE r;
               (st, r2) = RegKey_DeleteValue key access_point_name r1
           in if fst (RegKey_ReadValueDW key access_point_name r2) = ERROR_SUCCESS then (False, r2)
              else (True, r2)))"

subsection \<open>Product events and stateful events\<close>

definition AddProductEvent :: "string \<Rightarrow> Product \<Rightarrow> string \<Rightarrow> registry \<Rightarrow> bool \<times> registry" where
  "AddProductEvent brand product event_rlz r =
     (let (ok, reg_key, r1) = GetEventsRegKey brand kEventsSubkeyName (Some product) KEY_WRITE r;
          (st, r2) = RegKey_WriteValue reg_key event_rlz (REG_DWORD 1) r1
      in if st \<noteq> ERROR_SUCCESS then (False, r2) else (True, r2))"

text \<open>The loop of \<^verbatim>\<open>ReadProductEvents\<close>: it enumerates the values of the events key
  by index, into a name buffer of 2048 characters, until a call fails.\<close>

function ReadProductEvents_loop :: "HKEY \<Rightarrow> registry \<Rightarrow> nat \<Rightarrow> string list \<Rightarrow> LSTATUS \<times> string list" where
  "ReadProductEvents_loop events_key r num_values events =
     (let (result, buffer) = RegEnumValueA events_key num_values 2048 r in
      if result = ERROR_SUCCESS
      then ReadProductEvents_loop events_key r (Suc num_values) (events @ [buffer])
      else (result, events))"
  by pat_completeness auto
termination
  by (relation "measure (\<lambda>(k, r, n, ev). case k of None \<Rightarrow> 0 | Some p \<Rightarrow> length (key_values r p) - n)")
     (auto simp: RegEnumValueA_def split: option.splits if_splits)

definition ReadProductEvents :: "string \<Rightarrow> Product \<Rightarrow> string list \<Rightarrow> registry \<Rightarrow> bool \<times> string list" where
  "ReadProductEvents brand product events r =
     (let (ok, events_key, r1) = GetEventsRegKey brand kEventsSubkeyName (Some product) KEY_READ r in
      if \<not> RegKey_Valid events_key then (False, events)
      else
        (let (result, events') = ReadProductEvents_loop events_key r1 0 events
         in (result = ERROR_NO_MORE_ITEMS, events')))"

definition ClearProductEvent :: "string \<Rightarrow> Product \<Rightarrow> string \<Rightarrow> registry \<Rightarrow> bool \<times> registry" where
  "ClearProductEvent brand product event_rlz r =
     (let (ok, key, r1) = GetEventsRegKey brand kEventsSubkeyName (Some product) KEY_WRITE r;
          (st, r2) = RegKey_DeleteValue key event_rlz r1
      in if fst (RegKey_ReadValueDW key event_rlz r2) = ERROR_SUCCESS then (False, r2)
         else (True, r2))"

definition ClearAllProductEvents :: "string \<Rightarrow> Product \<Rightarrow> registry \<Rightarrow> bool \<times> registry" where
  "ClearAllProductEvents brand product r = ClearAllProductEventValues brand product kEventsSubkeyName r"

definition AddStatefulEvent :: "string \<Rightarrow> Product \<Rightarrow> string \<Rightarrow> registry \<Rightarrow> bool \<times> registry" where
  "AddStatefulEvent brand product event_rlz r =
     (let (ok, key, r1) = GetEventsRegKey brand kStatefulEventsSubkeyName (Some product) KEY_WRITE r in
      if \<not> ok then (False, r1)
      else
        (let (st, r2) = RegKey_WriteValue key event_rlz (REG_DWORD 1) r1
         in if st \<noteq> ERROR_SUCCESS then (False, r2) else (True, r2)))"

definition IsStatefulEvent :: "string \<Rightarrow> Product \<Rightarrow> string \<Rightarrow> registry \<Rightarrow> bool" where
  "IsStatefulEvent brand product event_rlz r =
     (let (ok, key, r1) = GetEventsRegKey brand kStatefulEventsSubkeyName (Some product) KEY_READ r
      in fst (RegKey_ReadValueDW key event_rlz r1) = ERROR_SUCCESS)"

definition ClearAllStatefulEvents :: "string \<Rightarrow> Product \<Rightarrow> registry \<Rightarrow> bool \<times> registry" where
  "ClearAllStatefulEvents brand product r =
     ClearAllProductEventValues brand product kStatefulEventsSubkeyName r"

subsection \<open>Garbage collection\<close>

text \<open>
  Modelled from the spec: the macro \<^verbatim>\<open>VERIFY\<close> is defined in \<^verbatim>\<open>assert.h\<close>, which is not
  among the sources. Garbage collection is best-effort housekeeping: a deletion that
  fails is logged and not propagated, so the macro evaluates its argument for the effect
  and the result goes nowhere.
\<close>

definition VERIFY :: "bool \<times> registry \<Rightarrow> registry" where
  "VERIFY res = snd res"

definition subkeys :: "string list" where
  "subkeys = [kRlzsSubkeyName, kEventsSubkeyName, kStatefulEventsSubkeyName, kPingTimesSubkeyName]"

definition CollectGarbage :: "string \<Rightarrow> registry \<Rightarrow> registry" where
  "CollectGarbage brand r =
     (let r1 = fold (\<lambda>subkey r'.
                  VERIFY (DeleteKeyIfEmpty HKEY_CURRENT_USER
                            (Some (AppendBrandToString brand (kLibKeyName @ [subkey]))) r'))
                subkeys r;
          r2 = VERIFY (DeleteKeyIfEmpty HKEY_CURRENT_USER (Some kLibKeyName) r1);
          r3 = VERIFY (DeleteKeyIfEmpty HKEY_CURRENT_USER (Some kGoogleCommonKeyName) r2)
      in VERIFY (DeleteKeyIfEmpty HKEY_CURRENT_USER (Some kGoogleKeyName) r3))"

section \<open>The financial ping\<close>

text \<open>
  \<^verbatim>\<open>financial_ping.cc\<close> reads, besides its arguments: whether the cross-process lock could
  be taken, what \<^verbatim>\<open>UserKey::HasAccess\<close> answers for read and for write access, the
  supplementary brand, the system time, the registry and the machine id. They are the
  fields of \<open>world\<close>.
\<close>

record world =
  lock_failed :: bool
  user_key_read :: bool
  user_key_write :: bool
  brand :: string
  system_time :: "64 word"
  reg :: registry
  machine_id :: "string option"

datatype AccessType = kReadAccess | kWriteAccess

text \<open>\<^verbatim>\<open>ScopedRlzValueStoreLock\<close> creates the store only when the lock did not fail; the
  store object has no state of its own, so it is the registry it works on.\<close>

definition GetStore :: "world \<Rightarrow> registry option" where
  "GetStore w = (if \<not> lock_failed w then Some (reg w) else None)"

definition HasAccess :: "world \<Rightarrow> AccessType \<Rightarrow> bool" where
  "HasAccess w type = (if type = kWriteAccess then user_key_write w else user_key_read w)"

definition GetSystemTimeAsInt64 :: "world \<Rightarrow> 64 word" where
  "GetSystemTimeAsInt64 w = system_time w"

text \<open>
  Modelled from the spec: \<^verbatim>\<open>GetProductEventsAsCgi\<close> and \<^verbatim>\<open>GetAccessPointRlz\<close> are
  defined in \<^verbatim>\<open>rlz_lib.cc\<close>, which is not among the sources. The first renders the
  product's pending events as a CGI fragment and tells whether any events were present;
  the second is the store's \<^verbatim>\<open>ReadAccessPointRlz\<close>.
\<close>

definition GetProductEventsAsCgi :: "rlz_lib \<Rightarrow> world \<Rightarrow> Product \<Rightarrow> nat \<Rightarrow> bool \<times> string" where
  "GetProductEventsAsCgi L w product cgi_size =
     (let (ok, events) = ReadProductEvents (brand w) product [] (reg w) in
      if ok \<and> events \<noteq> [] then (True, EventsAsCgi L events) else (False, []))"

definition GetAccessPointRlz :: "rlz_lib \<Rightarrow> world \<Rightarrow> AccessPoint \<Rightarrow> string \<Rightarrow> nat \<Rightarrow> bool \<times> string" where
  "GetAccessPointRlz L w point rlz rlz_size = ReadAccessPointRlz L (brand w) point rlz rlz_size (reg w)"

subsection \<open>When to ping\<close>

text \<open>\<^verbatim>\<open>now\<close> is unsigned and \<^verbatim>\<open>last_ping\<close> signed, both of 64 bits: the difference
  wraps around and is read as a signed number.\<close>

definition IsPingTime :: "rlz_lib \<Rightarrow> world \<Rightarrow> Product \<Rightarrow> bool \<Rightarrow> bool" where
  "IsPingTime L w product no_delay =
     (case GetStore w of
        None \<Rightarrow> False
      | Some store \<Rightarrow>
          if \<not> HasAccess w kReadAccess then False
          else
            (case ReadPingTime (brand w) product store of
               None \<Rightarrow> True
             | Some last_ping \<Rightarrow>
                 (let now = GetSystemTimeAsInt64 w;
                      interval = now - last_ping
                  in if sint interval < 0 then True
                     else
                       (let (has_events, cgi) = GetProductEventsAsCgi L w product (kMaxCgiLength L + 1)
                        in if no_delay \<and> has_events then True
                           else sint (if has_events then kEventsPingInterval L
                                      else kNoEventsPingInterval L) \<le> sint interval))))"

definition UpdateLastPingTime :: "world \<Rightarrow> Product \<Rightarrow> bool \<times> world" where
  "UpdateLastPingTime w product =
     (case GetStore w of
        None \<Rightarrow> (False, w)
      | Some store \<Rightarrow>
          if \<not> HasAccess w kWriteAccess then (False, w)
          else
            (let now = GetSystemTimeAsInt64 w;
                 (ok, store') = WritePingTime (brand w) product now store
             in (ok, w\<lparr>reg := store'\<rparr>)))"

definition ClearLastPingTime :: "world \<Rightarrow> Product \<Rightarrow> bool \<times> world" where
  "ClearLastPingTime w product =
     (case GetStore w of
        None \<Rightarrow> (False, w)
      | Some store \<Rightarrow>
          if \<not> HasAccess w kWriteAccess then (False, w)
          else (let (ok, store') = ClearPingTime (brand w) product store in (ok, w\<lparr>reg := store'\<rparr>)))"

subsection \<open>Forming the request\<close>

text \<open>
  \<^verbatim>\<open>FormRequest\<close> is modelled with a log of the calls it makes to whatever reaches the
  store or the machine, in the order it makes them, so that what it does before it
  fails can be stated. Pointer arguments are options, \<open>None\<close> being \<^verbatim>\<open>NULL\<close>; an
  access point array is the list of its points before the terminator.
\<close>

datatype store_call =
    Call_HasAccess AccessType
  | Call_GetProductEventsAsCgi Product
  | Call_GetAccessPointRlz AccessPoint
  | Call_GetPingParams Product "AccessPoint list"
  | Call_GetMachineId

record form_request_out =
  ret :: bool
  request :: "string option"
  calls :: "store_call list"

text \<open>The loop over every access point of the enumeration, which keeps those whose RLZ
  reads back non-empty.\<close>

function all_points_loop :: "rlz_lib \<Rightarrow> world \<Rightarrow> nat \<Rightarrow> AccessPoint list \<Rightarrow> store_call list
    \<Rightarrow> AccessPoint list \<times> store_call list" where
  "all_points_loop L w ap all_points cs =
     (if ap < LAST_ACCESS_POINT L
      then (let (ok, rlz) = GetAccessPointRlz L w ap [] (kMaxRlzLength L + 1) in
            all_points_loop L w (Suc ap)
              (if ok \<and> rlz \<noteq> [] then all_points @ [ap] else all_points)
              (cs @ [Call_GetAccessPointRlz ap]))
      else (all_points, cs))"
  by pat_completeness auto
termination
  by (relation "measure (\<lambda>(L, w, ap, pts, cs). LAST_ACCESS_POINT L - ap)") auto

text \<open>The part of \<^verbatim>\<open>FormRequest\<close> after its checks, which appends to the request and
  always returns \<^verbatim>\<open>true\<close>.\<close>

definition append_cgi :: "string \<Rightarrow> string \<Rightarrow> string option \<Rightarrow> string" where
  "append_cgi req var v = (case v of None \<Rightarrow> req | Some x \<Rightarrow> req @ ''&'' @ var @ ''='' @ x)"

definition FormRequest_body :: "rlz_lib \<Rightarrow> world \<Rightarrow> Product \<Rightarrow> AccessPoint list \<Rightarrow> string
    \<Rightarrow> string option \<Rightarrow> string option \<Rightarrow> string option \<Rightarrow> bool \<Rightarrow> store_call list
    \<Rightarrow> form_request_out" where
  "FormRequest_body L w product access_points product_signature product_brand product_id
       product_lang exclude_machine_id cs0 =
     (let req1 = kFinancialPingPath L @ ''?'' @ kProductSignatureCgiVariable L @ ''='' @ product_signature;
          req2 = append_cgi req1 (kProductBrandCgiVariable L) product_brand;
          req3 = append_cgi req2 (kProductIdCgiVariable L) product_id;
          req4 = append_cgi req3 (kProductLanguageCgiVariable L) product_lang;
          (has_events, cgi) = GetProductEventsAsCgi L w product (kMaxCgiLength L + 1);
          cs1 = cs0 @ [Call_GetProductEventsAsCgi product];
          req5 = (if has_events then req4 @ ''&'' @ cgi else req4);
          (all_points, cs2) =
             (if \<not> has_events then all_points_loop L w (NO_ACCESS_POINT + 1) [] cs1 else ([], cs1));
          points = (if has_events then access_points else all_points);
          (params_ok, cgi') = GetPingParams L (brand w) (reg w) product points (kMaxCgiLength L + 1);
          cs3 = cs2 @ [Call_GetPingParams product points];
          req6 = (if params_ok then req5 @ ''&'' @ cgi' else req5)
      in if has_events \<and> \<not> exclude_machine_id
         then \<lparr>ret = True, request = Some (append_cgi req6 (kMachineIdCgiVariable L) (machine_id w)),
               calls = cs3 @ [Call_GetMachineId]\<rparr>
         else \<lparr>ret = True, request = Some req6, calls = cs3\<rparr>)"

text \<open>
  The result \<open>None\<close> is undefined behaviour: with a brand namespace active the source
  compares the \<^verbatim>\<open>std::string\<close> of the namespace with \<^verbatim>\<open>product_brand\<close>, which must
  not be \<^verbatim>\<open>NULL\<close> there. The argument \<open>request_arg\<close> is the caller's string, or
  \<open>None\<close> for a \<^verbatim>\<open>NULL\<close> pointer.
\<close>

definition FormRequest :: "rlz_lib \<Rightarrow> world \<Rightarrow> Product \<Rightarrow> AccessPoint list option \<Rightarrow> string option
    \<Rightarrow> string option \<Rightarrow> string option \<Rightarrow> string option \<Rightarrow> bool \<Rightarrow> string option
    \<Rightarrow> form_request_out option" where
  "FormRequest L w product access_points product_signature product_brand product_id
       product_lang exclude_machine_id request_arg =
     (case request_arg of
        None \<Rightarrow> Some \<lparr>ret = False, request = None, calls = []\<rparr>
      | Some _ \<Rightarrow>
          (case GetStore w of
             None \<Rightarrow> Some \<lparr>ret = False, request = Some [], calls = []\<rparr>
           | Some store \<Rightarrow>
               if \<not> HasAccess w kReadAccess
               then Some \<lparr>ret = False, request = Some [], calls = [Call_HasAccess kReadAccess]\<rparr>
               else
                 (case access_points of
                    None \<Rightarrow> Some \<lparr>ret = False, request = Some [], calls = [Call_HasAccess kReadAccess]\<rparr>
                  | Some aps \<Rightarrow>
                      (case product_signature of
                         None \<Rightarrow>
                           Some \<lparr>ret = False, request = Some [], calls = [Call_HasAccess kReadAccess]\<rparr>
                       | Some sig \<Rightarrow>
                           if brand w \<noteq> [] \<and> product_brand = None then None
                           else if brand w \<noteq> [] \<and> Some (brand w) \<noteq> product_brand
                           then Some \<lparr>ret = False, request = Some [],
                                       calls = [Call_HasAccess kReadAccess]\<rparr>
                           else Some (FormRequest_body L w product aps sig product_brand product_id
                                        product_lang exclude_machine_id
                                        [Call_HasAccess kReadAccess])))))"

section \<open>Vocabulary of the statements, and example states\<close>

definition ping_times_key :: "string \<Rightarrow> path" where
  "ping_times_key b = AppendBrandToString b (kLibKeyName @ [kPingTimesSubkeyName])"

definition rlzs_key :: "string \<Rightarrow> path" where
  "rlzs_key b = AppendBrandToString b (kLibKeyName @ [kRlzsSubkeyName])"

definition events_key :: "string \<Rightarrow> string \<Rightarrow> path" where
  "events_key b product_name =
     AppendBrandToString b (kLibKeyName @ [kEventsSubkeyName]) @ [product_name]"

text \<open>The RLZ string the registry holds under an access point's name, if any.\<close>

definition stored_rlz :: "registry \<Rightarrow> string \<Rightarrow> string \<Rightarrow> string option" where
  "stored_rlz r b name =
     (case map_of (key_values r (rlzs_key b)) name of Some (REG_SZ s) \<Rightarrow> Some s | _ \<Rightarrow> None)"

definition empty_registry :: registry where
  "empty_registry = \<lparr>hive = [], undeletable_values = [], undeletable_keys = []\<rparr>"

text \<open>An access point holds an RLZ when the store reads a non-empty value for it into
  the buffer \<^verbatim>\<open>FormRequest\<close> uses; \<open>stored_points\<close> lists those points in the order of
  the enumeration.\<close>

definition holds_rlz :: "rlz_lib \<Rightarrow> world \<Rightarrow> AccessPoint \<Rightarrow> bool" where
  "holds_rlz L w ap =
     (let (ok, rlz) = ReadAccessPointRlz L (brand w) ap [] (kMaxRlzLength L + 1) (reg w)
      in ok \<and> rlz \<noteq> [])"

definition stored_points :: "rlz_lib \<Rightarrow> world \<Rightarrow> AccessPoint list" where
  "stored_points L w = filter (holds_rlz L w) [NO_ACCESS_POINT + 1 ..< LAST_ACCESS_POINT L]"

text \<open>The access point lists that the logged calls of \<^verbatim>\<open>GetPingParams\<close> were given.\<close>

fun ping_params_of :: "store_call \<Rightarrow> AccessPoint list option" where
  "ping_params_of (Call_GetPingParams product points) = Some points"
| "ping_params_of _ = None"

definition ping_points :: "form_request_out \<Rightarrow> AccessPoint list list" where
  "ping_points out = List.map_filter ping_params_of (calls out)"

text \<open>Whether the product has pending events, as \<^verbatim>\<open>FormRequest\<close> and
  \<^verbatim>\<open>IsPingTime\<close> find out; the RLZ fragment for a list of access points; and the parts
  of the request before and after that fragment.\<close>

definition has_events :: "rlz_lib \<Rightarrow> world \<Rightarrow> Product \<Rightarrow> bool" where
  "has_events L w product = fst (GetProductEventsAsCgi L w product (kMaxCgiLength L + 1))"

definition rlz_fragment :: "rlz_lib \<Rightarrow> world \<Rightarrow> Product \<Rightarrow> AccessPoint list \<Rightarrow> bool \<times> string" where
  "rlz_fragment L w product points =
     GetPingParams L (brand w) (reg w) product points (kMaxCgiLength L + 1)"

definition cgi_arg :: "string \<Rightarrow> string option \<Rightarrow> string" where
  "cgi_arg var v = (case v of None \<Rightarrow> [] | Some x \<Rightarrow> ''&'' @ var @ ''='' @ x)"

definition request_head :: "rlz_lib \<Rightarrow> world \<Rightarrow> Product \<Rightarrow> string \<Rightarrow> string option \<Rightarrow> string option
    \<Rightarrow> string option \<Rightarrow> string" where
  "request_head L w product sig pb pid lang =
     kFinancialPingPath L @ ''?'' @ kProductSignatureCgiVariable L @ ''='' @ sig @
     cgi_arg (kProductBrandCgiVariable L) pb @ cgi_arg (kProductIdCgiVariable L) pid @
     cgi_arg (kProductLanguageCgiVariable L) lang @
     (if has_events L w product
      then ''&'' @ snd (GetProductEventsAsCgi L w product (kMaxCgiLength L + 1)) else [])"

definition request_tail :: "rlz_lib \<Rightarrow> world \<Rightarrow> Product \<Rightarrow> bool \<Rightarrow> string" where
  "request_tail L w product excl =
     (if has_events L w product \<and> \<not> excl then cgi_arg (kMachineIdCgiVariable L) (machine_id w)
      else [])"

text \<open>The precondition violations of \<^verbatim>\<open>FormRequest\<close>: no access points, no signature,
  or an active brand namespace that the brand of the caller does not equal. A caller that
  gives no brand (a null pointer) under an active namespace does not equal it either.\<close>

definition precondition_violated :: "world \<Rightarrow> AccessPoint list option \<Rightarrow> string option
    \<Rightarrow> string option \<Rightarrow> bool" where
  "precondition_violated w access_points product_signature product_brand =
     (access_points = None \<or> product_signature = None \<or>
      (brand w \<noteq> [] \<and> product_brand \<noteq> Some (brand w)))"

text \<open>An instance of the library's tables and encoders, and a registry and a world to
  run the functions on: Chrome has pinged at time 100 and has one pending event, and two
  of the three access points hold an RLZ.\<close>

definition example_name :: "AccessPoint \<Rightarrow> string option" where
  "example_name ap =
     (if ap = 1 then Some ''I7'' else if ap = 2 then Some ''W1'' else if ap = 3 then Some ''C1''
      else None)"

definition example_lib :: rlz_lib where
  "example_lib =
     \<lparr>GetAccessPointName = example_name,
      LAST_ACCESS_POINT = 4,
      kEventsPingInterval = 864000000000,
      kNoEventsPingInterval = 6048000000000,
      kMaxRlzLength = 64,
      kMaxCgiLength = 2048,
      kFinancialPingPath = ''/tools/pso/ping'',
      kProductSignatureCgiVariable = ''as'',
      kProductBrandCgiVariable = ''brand'',
      kProductIdCgiVariable = ''pid'',
      kProductLanguageCgiVariable = ''hl'',
      kMachineIdCgiVariable = ''id'',
      EventsAsCgi = (\<lambda>events. ''events='' @ concat (map (\<lambda>e. e @ '','') events)),
      GetPingParams = (\<lambda>b r product points n.
         (True, ''rep=2&rlz='' @ concat (map (\<lambda>ap. value_name (example_name ap) @ '','') points)))\<rparr>"

definition example_registry :: registry where
  "example_registry =
     \<lparr>hive =
        [([''Software''], []),
         ([''Software'', ''Google''], []),
         ([''Software'', ''Google'', ''Common''], []),
         ([''Software'', ''Google'', ''Common'', ''Rlz''], []),
         ([''Software'', ''Google'', ''Common'', ''Rlz'', ''PTimes''], [(''C'', REG_QWORD 100)]),
         ([''Software'', ''Google'', ''Common'', ''Rlz'', ''Events''], []),
         ([''Software'', ''Google'', ''Common'', ''Rlz'', ''Events'', ''C''],
            [(''I7S'', REG_DWORD 1)]),
         ([''Software'', ''Google'', ''Common'', ''Rlz'', ''RLZs''],
            [(''I7'', REG_SZ ''1R1_''), (''C1'', REG_SZ ''1C1_'')])],
      undeletable_values = [], undeletable_keys = []\<rparr>"

definition example_world :: world where
  "example_world =
     \<lparr>lock_failed = False, user_key_read = True, user_key_write = True, brand = [],
      system_time = 864000000100, reg = example_registry, machine_id = Some ''MID''\<rparr>"

text \<open>The example registry on a backing store that reports success for a deletion and
  leaves the entry in place: for the RLZ of the first access point, for Chrome's ping
  time, for Chrome's pending event and for the key of Chrome's events.\<close>

definition stuck_registry :: registry where
  "stuck_registry =
     example_registry
       \<lparr>undeletable_values :=
          [(([''Software'', ''Google'', ''Common'', ''Rlz'', ''RLZs''], ''I7''), ERROR_SUCCESS),
           (([''Software'', ''Google'', ''Common'', ''Rlz'', ''PTimes''], ''C''), ERROR_SUCCESS),
           (([''Software'', ''Google'', ''Common'', ''Rlz'', ''Events'', ''C''], ''I7S''),
            ERROR_SUCCESS)],
        undeletable_keys :=
          [([''Software'', ''Google'', ''Common'', ''Rlz'', ''Events'', ''C''], ERROR_SUCCESS)]\<rparr>"

text \<open>
  A registry is well-formed when every key it holds has all its ancestors. One step of
  the garbage collection, on the key \<open>k\<close>, removes the key when it exists, has no subkey
  and no value, and the system does not refuse; \<open>gc_keys\<close> are the keys that
  \<^verbatim>\<open>CollectGarbage\<close> goes through, in its order: the four containers of the active
  namespace, then the library key and its two parents. In that order no key is a child
  of an earlier one, which is what \<open>gc_ordered\<close> says.
\<close>

definition wf_registry :: "registry \<Rightarrow> bool" where
  "wf_registry r = list_all (\<lambda>kv. list_all (key_exists r) (tl (prefixes (fst kv)))) (hive r)"

definition gc_step :: "path \<Rightarrow> registry \<Rightarrow> registry" where
  "gc_step k r =
     (if key_exists r k \<and> SubkeyCount r k = 0 \<and> ValueCount r k = 0 \<and>
         map_of (undeletable_keys r) k = None
      then r\<lparr>hive := remove_tree k (hive r)\<rparr> else r)"

definition gc_keys :: "string \<Rightarrow> path list" where
  "gc_keys b =
     map (\<lambda>subkey. AppendBrandToString b (kLibKeyName @ [subkey])) subkeys @
     [kLibKeyName, kGoogleCommonKeyName, kGoogleKeyName]"

fun gc_ordered :: "path list \<Rightarrow> bool" where
  "gc_ordered [] = True"
| "gc_ordered (k # ks) = (list_all (\<lambda>k'. \<not> is_child k k') ks \<and> gc_ordered ks)"

text \<open>A registry for the garbage collection: the ping times and the stateful events
  are empty, the events hold the empty key of one product, and the system denies the
  deletion of the empty RLZ key.\<close>

definition gc_registry :: registry where
  "gc_registry =
     \<lparr>hive =
        [([''Software''], []),
         ([''Software'', ''Google''], []),
         ([''Software'', ''Google'', ''Common''], []),
         ([''Software'', ''Google'', ''Common'', ''Rlz''], []),
         ([''Software'', ''Google'', ''Common'', ''Rlz'', ''RLZs''], []),
         ([''Software'', ''Google'', ''Common'', ''Rlz'', ''Events''], []),
         ([''Software'', ''Google'', ''Common'', ''Rlz'', ''Events'', ''C''], []),
         ([''Software'', ''Google'', ''Common'', ''Rlz'', ''StatefulEvents''], []),
         ([''Software'', ''Google'', ''Common'', ''Rlz'', ''PTimes''], [])],
      undeletable_values = [],
      undeletable_keys =
        [([''Software'', ''Google'', ''Common'', ''Rlz'', ''RLZs''], ERROR_ACCESS_DENIED)]\<rparr>"

section \<open>Facts about the registry model\<close>

lemma wants_create_KEY_WRITE: "wants_create KEY_WRITE"
  by (simp add: wants_create_def KEY_WRITE_def KEY_SET_VALUE_def KEY_CREATE_SUB_KEY_def
      KEY_CREATE_LINK_def STANDARD_RIGHTS_WRITE_def)

lemma not_wants_create_KEY_READ: "\<not> wants_create KEY_READ"
  by (simp add: wants_create_def KEY_READ_def KEY_SET_VALUE_def KEY_CREATE_SUB_KEY_def
      KEY_CREATE_LINK_def STANDARD_RIGHTS_READ_def KEY_QUERY_VALUE_def
      KEY_ENUMERATE_SUB_KEYS_def KEY_NOTIFY_def)

lemma map_of_add_key:
  "map_of (add_key p h) q = (if q = p \<and> map_of h p = None then Some [] else map_of h q)"
  by (auto simp: add_key_def map_add_def split: option.splits)

lemma map_of_fold_add_key:
  "map_of (fold add_key qs h) q =
     (if q \<in> set qs \<and> map_of h q = None then Some [] else map_of h q)"
  by (induction qs arbitrary: h) (auto simp: map_of_add_key)

lemma set_tl_prefixes: "set (tl (prefixes p)) = {q. q \<noteq> [] \<and> prefix q p}"
  by (cases p) (auto simp: prefix_Cons image_iff)

lemma map_of_create_path:
  "map_of (create_path p h) q =
     (if q \<noteq> [] \<and> prefix q p \<and> map_of h q = None then Some [] else map_of h q)"
  by (simp add: create_path_def map_of_fold_add_key set_tl_prefixes)

lemma map_of_remove_tree:
  "map_of (remove_tree p h) q = (if prefix p q then None else map_of h q)"
  unfolding remove_tree_def by (induction h) auto

lemma key_values_missing: "\<not> key_exists r p \<Longrightarrow> key_values r p = []"
  by (simp add: key_exists_def key_values_def)

lemma AppendBrandToString_nonempty [simp]: "AppendBrandToString b (kLibKeyName @ [name]) \<noteq> []"
  by (simp add: AppendBrandToString_def)

lemma key_exists_create_path [simp]:
  "p \<noteq> [] \<Longrightarrow> key_exists (r\<lparr>hive := create_path p (hive r)\<rparr>) p"
  by (simp add: key_exists_def map_of_create_path)

lemma GetRegKey_write:
  "GetRegKey b name KEY_WRITE r =
     (True, Some (AppendBrandToString b (kLibKeyName @ [name])),
      r\<lparr>hive := create_path (AppendBrandToString b (kLibKeyName @ [name])) (hive r)\<rparr>)"
  by (simp add: GetRegKey_def wants_create_KEY_WRITE RegKey_Create_def Let_def)

lemma GetRegKey_read:
  "GetRegKey b name KEY_READ r =
     (if key_exists r (AppendBrandToString b (kLibKeyName @ [name]))
      then (True, Some (AppendBrandToString b (kLibKeyName @ [name])), r)
      else (False, None, r))"
  by (simp add: GetRegKey_def not_wants_create_KEY_READ RegKey_Open_def Let_def)

section \<open>Ping times: write, read, clear\<close>

lemma WritePingTime_ok: "fst (WritePingTime b p t r)"
  by (simp add: WritePingTime_def GetPingTimesRegKey_def GetRegKey_write RegKey_WriteValue_def)

lemma WritePingTime_then_Read: "ReadPingTime b p (snd (WritePingTime b p t r)) = Some t"
  by (simp add: WritePingTime_def ReadPingTime_def GetPingTimesRegKey_def GetRegKey_write
      GetRegKey_read RegKey_WriteValue_def RegKey_ReadInt64_def RegKey_ReadValue_def
      key_exists_def key_values_def update_conv' map_of_create_path)

lemma ReadPingTime_no_record:
  "map_of (key_values r (ping_times_key b)) (value_name (GetProductName p)) = None \<Longrightarrow>
   ReadPingTime b p r = None"
  by (simp add: ReadPingTime_def GetPingTimesRegKey_def GetRegKey_read ping_times_key_def
      RegKey_ReadInt64_def RegKey_ReadValue_def)

lemma ReadInt64_fails:
  "fst (RegKey_ReadValue key name 8 r) \<noteq> ERROR_SUCCESS \<Longrightarrow>
   fst (RegKey_ReadInt64 key name r) \<noteq> ERROR_SUCCESS"
  by (auto simp: RegKey_ReadInt64_def split: prod.splits LSTATUS.splits option.splits regval.splits)

lemma ClearPingTime_then_Read:
  assumes "fst (ClearPingTime b p r)"
  shows "ReadPingTime b p (snd (ClearPingTime b p r)) = None"
proof -
  let ?n = "value_name (GetProductName p)"
  let ?r1 = "r\<lparr>hive := create_path (ping_times_key b) (hive r)\<rparr>"
  obtain st r2 where d: "RegKey_DeleteValue (Some (ping_times_key b)) ?n ?r1 = (st, r2)"
    by (cases "RegKey_DeleteValue (Some (ping_times_key b)) ?n ?r1")
  from assms d have rd: "fst (RegKey_ReadValue (Some (ping_times_key b)) ?n 8 r2) \<noteq> ERROR_SUCCESS"
    by (auto simp: ClearPingTime_def GetPingTimesRegKey_def GetRegKey_write ping_times_key_def
        split: if_splits)
  from d rd have s: "snd (ClearPingTime b p r) = r2"
    by (simp add: ClearPingTime_def GetPingTimesRegKey_def GetRegKey_write ping_times_key_def)
  from ReadInt64_fails[OF rd] show ?thesis
    by (auto simp: s ReadPingTime_def GetPingTimesRegKey_def GetRegKey_read ping_times_key_def
        split: prod.splits)
qed

lemma ClearPingTime_ok:
  assumes "map_of (undeletable_values r) (ping_times_key b, value_name (GetProductName p)) = None"
  shows "fst (ClearPingTime b p r)"
  using assms
  by (auto simp: ClearPingTime_def GetPingTimesRegKey_def GetRegKey_write ping_times_key_def
      RegKey_DeleteValue_def RegKey_ReadValue_def key_values_def update_conv' delete_conv' Let_def
      split: option.splits prod.splits)

text \<open>
  C4. For every product and every 64-bit time, on a registry that only the store's own
  calls change (the lock is held): \<^verbatim>\<open>WritePingTime\<close> succeeds, and \<^verbatim>\<open>ReadPingTime\<close>
  after it finds the time that was written. With write access, that is, when the registry
  carries out the deletion of the product's ping time, \<^verbatim>\<open>ClearPingTime\<close> succeeds and
  \<^verbatim>\<open>ReadPingTime\<close> after it finds nothing; and on any registry, whenever
  \<^verbatim>\<open>ClearPingTime\<close> returns true, \<^verbatim>\<open>ReadPingTime\<close> after it finds nothing.
\<close>

theorem WritePingTime_ClearPingTime_ReadPingTime:
  "fst (WritePingTime b p t r) \<and>
   ReadPingTime b p (snd (WritePingTime b p t r)) = Some t \<and>
   (map_of (undeletable_values r) (ping_times_key b, value_name (GetProductName p)) = None \<longrightarrow>
      fst (ClearPingTime b p r) \<and> ReadPingTime b p (snd (ClearPingTime b p r)) = None) \<and>
   (fst (ClearPingTime b p r) \<longrightarrow> ReadPingTime b p (snd (ClearPingTime b p r)) = None)"
  using WritePingTime_ok WritePingTime_then_Read ClearPingTime_then_Read ClearPingTime_ok
  by blast

lemma undeletable_values_WritePingTime:
  "undeletable_values (snd (WritePingTime b p t r)) = undeletable_values r"
  by (simp add: WritePingTime_def GetPingTimesRegKey_def GetRegKey_write RegKey_WriteValue_def)

theorem WritePingTime_ClearPingTime_ReadPingTime_witness:
  "fst (WritePingTime [] CHROME 5 empty_registry) \<and>
   ReadPingTime [] CHROME (snd (WritePingTime [] CHROME 5 empty_registry)) = Some 5 \<and>
   fst (ClearPingTime [] CHROME (snd (WritePingTime [] CHROME 5 empty_registry))) \<and>
   ReadPingTime [] CHROME
     (snd (ClearPingTime [] CHROME (snd (WritePingTime [] CHROME 5 empty_registry)))) = None"
proof -
  have u: "map_of (undeletable_values (snd (WritePingTime [] CHROME 5 empty_registry)))
             (ping_times_key [], value_name (GetProductName CHROME)) = None"
    by (simp add: undeletable_values_WritePingTime empty_registry_def)
  show ?thesis
    using WritePingTime_ClearPingTime_ReadPingTime [of "[]" CHROME 5 empty_registry]
      WritePingTime_ClearPingTime_ReadPingTime
        [where b = "[]" and p = CHROME and r = "snd (WritePingTime [] CHROME 5 empty_registry)"] u
    by blast
qed

section \<open>Pending events\<close>

text \<open>When the names of the values fit the buffer of the enumeration, the loop of
  \<^verbatim>\<open>ReadProductEvents\<close> returns the names of all values of the product's events key,
  and the product has pending events exactly when that key holds a value.\<close>

declare ReadProductEvents_loop.simps [simp del]

lemma ReadProductEvents_loop_eq:
  assumes "list_all (\<lambda>kv. length (fst kv) < 2048) (key_values r p)"
  shows "ReadProductEvents_loop (Some p) r n events =
           (ERROR_NO_MORE_ITEMS, events @ map fst (drop n (key_values r p)))"
  using assms
proof (induction "length (key_values r p) - n" arbitrary: n events)
  case 0
  then show ?case
    by (subst ReadProductEvents_loop.simps) (simp add: RegEnumValueA_def)
next
  case (Suc d)
  then have n: "n < length (key_values r p)" by simp
  with Suc.prems have s: "length (fst (key_values r p ! n)) < 2048"
    by (simp add: list_all_length)
  from Suc.hyps(2) have d: "d = length (key_values r p) - Suc n" by simp
  have "ReadProductEvents_loop (Some p) r n events =
          ReadProductEvents_loop (Some p) r (Suc n) (events @ [fst (key_values r p ! n)])"
    using n s by (subst ReadProductEvents_loop.simps) (simp add: RegEnumValueA_def)
  also have "\<dots> = (ERROR_NO_MORE_ITEMS,
      (events @ [fst (key_values r p ! n)]) @ map fst (drop (Suc n) (key_values r p)))"
    by (rule Suc.hyps(1) [OF d Suc.prems])
  finally show ?case
    using n by (simp add: Cons_nth_drop_Suc [symmetric])
qed

lemma ReadProductEvents_eq:
  assumes "GetProductName product = Some name"
    and "list_all (\<lambda>kv. length (fst kv) < 2048) (key_values r (events_key b name))"
  shows "ReadProductEvents b product events r =
           (if key_exists r (events_key b name)
            then (True, events @ map fst (key_values r (events_key b name)))
            else (False, events))"
proof -
  have o: "GetEventsRegKey b kEventsSubkeyName (Some product) KEY_READ r =
             (if key_exists r (events_key b name) then (True, Some (events_key b name), r)
              else (False, None, r))"
    using assms(1)
    by (simp add: GetEventsRegKey_def not_wants_create_KEY_READ RegKey_Open_def events_key_def
        Let_def)
  show ?thesis
    by (simp add: ReadProductEvents_def o RegKey_Valid_def ReadProductEvents_loop_eq [OF assms(2)])
qed

lemma has_events_iff:
  assumes "GetProductName product = Some name"
    and "list_all (\<lambda>kv. length (fst kv) < 2048) (key_values (reg w) (events_key (brand w) name))"
  shows "has_events L w product \<longleftrightarrow> key_values (reg w) (events_key (brand w) name) \<noteq> []"
  using assms
  by (auto simp: has_events_def GetProductEventsAsCgi_def ReadProductEvents_eq key_values_missing)

section \<open>When a ping is due\<close>

text \<open>
  C3. With the lock held and read access granted, \<^verbatim>\<open>IsPingTime\<close> returns true for every
  product and either value of \<open>no_delay\<close> when the store has no ping time for the product,
  and when the difference between the system time and the stored ping time, computed in
  64 bits and read as a signed number, is negative.
\<close>

theorem IsPingTime_no_record_or_future:
  assumes "\<not> lock_failed w" and "HasAccess w kReadAccess"
  shows "(ReadPingTime (brand w) product (reg w) = None \<longrightarrow> IsPingTime L w product no_delay) \<and>
         (\<forall>last_ping. ReadPingTime (brand w) product (reg w) = Some last_ping \<and>
             sint (system_time w - last_ping) < 0 \<longrightarrow> IsPingTime L w product no_delay)"
  using assms
  by (simp add: IsPingTime_def GetStore_def GetSystemTimeAsInt64_def)

theorem IsPingTime_no_record_or_future_witness:
  "\<not> lock_failed (example_world\<lparr>system_time := 99\<rparr>) \<and>
   HasAccess (example_world\<lparr>system_time := 99\<rparr>) kReadAccess \<and>
   ReadPingTime [] DESKTOP example_registry = None \<and>
   IsPingTime example_lib (example_world\<lparr>system_time := 99\<rparr>) DESKTOP False \<and>
   ReadPingTime [] CHROME example_registry = Some 100 \<and>
   sint (99 - 100 :: 64 word) < 0 \<and>
   IsPingTime example_lib (example_world\<lparr>system_time := 99\<rparr>) CHROME False"
proof -
  let ?w = "example_world\<lparr>system_time := 99\<rparr>"
  have l: "\<not> lock_failed ?w" and a: "HasAccess ?w kReadAccess"
    and b: "brand ?w = []" and r: "reg ?w = example_registry" and t: "system_time ?w = 99"
    by (simp_all add: example_world_def HasAccess_def)
  have n: "ReadPingTime [] DESKTOP example_registry = None" by code_simp
  have c: "ReadPingTime [] CHROME example_registry = Some 100" by code_simp
  have i: "sint (99 - 100 :: 64 word) < 0" by simp
  from IsPingTime_no_record_or_future [OF l a, of DESKTOP example_lib False]
       IsPingTime_no_record_or_future [OF l a, of CHROME example_lib False]
  show ?thesis using l a n c i by (simp add: b r t)
qed

text \<open>
  C1 (as amended). With the lock held and read access granted, for every product whose
  stored ping time exists and gives a non-negative interval (the system time minus the
  stored time, in 64 bits, read as a signed number): \<^verbatim>\<open>IsPingTime\<close> returns true if
  \<open>no_delay\<close> is set and the product has pending events; otherwise it returns true if and
  only if the interval is at least \<^verbatim>\<open>kEventsPingInterval\<close> when the product has pending
  events, and at least \<^verbatim>\<open>kNoEventsPingInterval\<close> when it has none.
\<close>

theorem IsPingTime_interval:
  assumes "\<not> lock_failed w" and "HasAccess w kReadAccess"
    and "ReadPingTime (brand w) product (reg w) = Some last_ping"
    and "0 \<le> sint (system_time w - last_ping)"
  shows "(no_delay \<and> fst (GetProductEventsAsCgi L w product (kMaxCgiLength L + 1))
            \<longrightarrow> IsPingTime L w product no_delay) \<and>
         (\<not> (no_delay \<and> fst (GetProductEventsAsCgi L w product (kMaxCgiLength L + 1)))
            \<longrightarrow> IsPingTime L w product no_delay =
                 (if fst (GetProductEventsAsCgi L w product (kMaxCgiLength L + 1))
                  then sint (kEventsPingInterval L) \<le> sint (system_time w - last_ping)
                  else sint (kNoEventsPingInterval L) \<le> sint (system_time w - last_ping)))"
  using assms
  by (auto simp: IsPingTime_def GetStore_def GetSystemTimeAsInt64_def Let_def split: prod.splits)

theorem IsPingTime_interval_witness:
  "\<not> lock_failed example_world \<and> HasAccess example_world kReadAccess \<and>
   ReadPingTime (brand example_world) CHROME (reg example_world) = Some 100 \<and>
   0 \<le> sint (system_time example_world - 100) \<and>
   fst (GetProductEventsAsCgi example_lib example_world CHROME (kMaxCgiLength example_lib + 1)) \<and>
   IsPingTime example_lib example_world CHROME True \<and>
   IsPingTime example_lib example_world CHROME False \<and>
   sint (kEventsPingInterval example_lib) \<le> sint (system_time example_world - 100)"
proof -
  have l: "\<not> lock_failed example_world" and a: "HasAccess example_world kReadAccess"
    by (simp_all add: example_world_def HasAccess_def)
  have c: "ReadPingTime (brand example_world) CHROME (reg example_world) = Some 100"
    by code_simp
  have i: "0 \<le> sint (system_time example_world - 100)"
    by (simp add: example_world_def)
  have e: "fst (GetProductEventsAsCgi example_lib example_world CHROME (kMaxCgiLength example_lib + 1))"
    by code_simp
  have k: "sint (kEventsPingInterval example_lib) \<le> sint (system_time example_world - 100)"
    by (simp add: example_world_def example_lib_def)
  from IsPingTime_interval [OF l a c i, of True example_lib]
       IsPingTime_interval [OF l a c i, of False example_lib]
  show ?thesis using l a c i e k by simp
qed

text \<open>
  C1 as it was stated says nothing of the lock. When the lock cannot be taken the function
  returns false before it reads anything: here Chrome's ping time is stored, the interval
  is non-negative and reaches the events threshold, and Chrome has a pending event, yet
  \<^verbatim>\<open>IsPingTime\<close> is false with and without \<open>no_delay\<close>.
\<close>

theorem IsPingTime_without_lock_counterexample:
  "ReadPingTime (brand (example_world\<lparr>lock_failed := True\<rparr>)) CHROME
      (reg (example_world\<lparr>lock_failed := True\<rparr>)) = Some 100 \<and>
   0 \<le> sint (system_time (example_world\<lparr>lock_failed := True\<rparr>) - 100) \<and>
   fst (GetProductEventsAsCgi example_lib (example_world\<lparr>lock_failed := True\<rparr>) CHROME
          (kMaxCgiLength example_lib + 1)) \<and>
   sint (kEventsPingInterval example_lib)
      \<le> sint (system_time (example_world\<lparr>lock_failed := True\<rparr>) - 100) \<and>
   \<not> IsPingTime example_lib (example_world\<lparr>lock_failed := True\<rparr>) CHROME True \<and>
   \<not> IsPingTime example_lib (example_world\<lparr>lock_failed := True\<rparr>) CHROME False"
proof -
  have "ReadPingTime (brand (example_world\<lparr>lock_failed := True\<rparr>)) CHROME
      (reg (example_world\<lparr>lock_failed := True\<rparr>)) = Some 100"
    by code_simp
  moreover have "0 \<le> sint (system_time (example_world\<lparr>lock_failed := True\<rparr>) - 100)"
    by (simp add: example_world_def)
  moreover have "fst (GetProductEventsAsCgi example_lib (example_world\<lparr>lock_failed := True\<rparr>) CHROME
          (kMaxCgiLength example_lib + 1))"
    by code_simp
  moreover have "sint (kEventsPingInterval example_lib)
      \<le> sint (system_time (example_world\<lparr>lock_failed := True\<rparr>) - 100)"
    by (simp add: example_world_def example_lib_def)
  moreover have "\<not> IsPingTime example_lib (example_world\<lparr>lock_failed := True\<rparr>) CHROME no_delay" for no_delay
    by (simp add: IsPingTime_def GetStore_def)
  ultimately show ?thesis by blast
qed

section \<open>The request\<close>

declare all_points_loop.simps [simp del]

lemma all_points_loop_eq:
  "all_points_loop L w ap pts cs =
     (pts @ filter (holds_rlz L w) [ap ..< LAST_ACCESS_POINT L],
      cs @ map Call_GetAccessPointRlz [ap ..< LAST_ACCESS_POINT L])"
proof (induction L w ap pts cs rule: all_points_loop.induct)
  case (1 L w ap pts cs)
  show ?case
  proof (cases "ap < LAST_ACCESS_POINT L")
    case True
    obtain ok rlz where g: "GetAccessPointRlz L w ap [] (kMaxRlzLength L + 1) = (ok, rlz)"
      by (cases "GetAccessPointRlz L w ap [] (kMaxRlzLength L + 1)")
    have h: "holds_rlz L w ap = (ok \<and> rlz \<noteq> [])"
      using g by (simp add: holds_rlz_def GetAccessPointRlz_def)
    from True g have
      "all_points_loop L w ap pts cs =
         all_points_loop L w (Suc ap) (if ok \<and> rlz \<noteq> [] then pts @ [ap] else pts)
           (cs @ [Call_GetAccessPointRlz ap])"
      by (subst all_points_loop.simps) simp
    also have "\<dots> = ((if ok \<and> rlz \<noteq> [] then pts @ [ap] else pts)
                       @ filter (holds_rlz L w) [Suc ap ..< LAST_ACCESS_POINT L],
                     (cs @ [Call_GetAccessPointRlz ap])
                       @ map Call_GetAccessPointRlz [Suc ap ..< LAST_ACCESS_POINT L])"
      using "1.IH" [OF True g [symmetric] refl] .
    finally show ?thesis
      using True h by (simp add: upt_conv_Cons)
  next
    case False
    then show ?thesis by (subst all_points_loop.simps) simp
  qed
qed

lemma map_filter_append: "List.map_filter f (xs @ ys) = List.map_filter f xs @ List.map_filter f ys"
  by (simp add: List.map_filter_def)

lemma map_filter_ap_rlz: "List.map_filter ping_params_of (map Call_GetAccessPointRlz xs) = []"
  by (induction xs) (simp_all add: List.map_filter_def)

lemma FormRequest_body_ret: "ret (FormRequest_body L w product aps sig pb pid lang excl cs0)"
  by (simp add: FormRequest_body_def Let_def split: prod.splits)

lemma FormRequest_body_ping_points:
  "ping_points (FormRequest_body L w product aps sig pb pid lang excl cs0) =
     List.map_filter ping_params_of cs0 @
     [if has_events L w product then aps else stored_points L w]"
  by (simp add: FormRequest_body_def Let_def ping_points_def has_events_def stored_points_def
      all_points_loop_eq map_filter_append map_filter_ap_rlz List.map_filter_def split: prod.splits)

lemma append_cgi_eq: "append_cgi req var v = req @ cgi_arg var v"
  by (simp add: append_cgi_def cgi_arg_def split: option.splits)

lemma FormRequest_body_request:
  "request (FormRequest_body L w product aps sig pb pid lang excl cs0) =
     Some (request_head L w product sig pb pid lang @
           (if fst (rlz_fragment L w product (if has_events L w product then aps else stored_points L w))
            then ''&'' @ snd (rlz_fragment L w product
                               (if has_events L w product then aps else stored_points L w))
            else []) @
           request_tail L w product excl)"
  by (simp add: FormRequest_body_def Let_def rlz_fragment_def has_events_def request_head_def
      request_tail_def append_cgi_eq stored_points_def all_points_loop_eq split: prod.splits)

lemma FormRequest_success:
  assumes "FormRequest L w product access_points product_signature product_brand product_id
             product_lang exclude_machine_id request_arg = Some out"
    and "ret out"
  shows "\<exists>aps sig. access_points = Some aps \<and> product_signature = Some sig \<and>
           out = FormRequest_body L w product aps sig product_brand product_id product_lang
                   exclude_machine_id [Call_HasAccess kReadAccess]"
proof (cases access_points)
  case None
  with assms show ?thesis
    by (cases request_arg; cases "GetStore w"; cases "HasAccess w kReadAccess")
       (auto simp: FormRequest_def)
next
  case aps: (Some aps)
  show ?thesis
  proof (cases product_signature)
    case None
    with assms aps show ?thesis
      by (cases request_arg; cases "GetStore w"; cases "HasAccess w kReadAccess")
         (auto simp: FormRequest_def)
  next
    case sig: (Some sig)
    with assms aps show ?thesis
      by (cases request_arg; cases "GetStore w"; cases "HasAccess w kReadAccess";
          cases "brand w \<noteq> [] \<and> product_brand = None";
          cases "brand w \<noteq> [] \<and> Some (brand w) \<noteq> product_brand")
         (auto simp: FormRequest_def split: if_splits)
  qed
qed

text \<open>
  C2. Whenever \<^verbatim>\<open>FormRequest\<close> succeeds it asks for the RLZ fragment once. If the product
  has no pending events, the list it asks with is \<open>stored_points\<close>: every access point
  of the enumeration, in its order, whose stored RLZ reads back non-empty, whatever list
  the caller supplied. If the product has pending events, it is exactly the caller's
  list, whatever the store holds for other access points. The fragment returned for that
  list is what the request carries between its head and its tail.
\<close>

theorem FormRequest_rlz_points:
  assumes "FormRequest L w product access_points product_signature product_brand product_id
             product_lang exclude_machine_id request_arg = Some out"
    and "ret out"
  shows "\<exists>aps sig. access_points = Some aps \<and> product_signature = Some sig \<and>
           (\<not> has_events L w product \<longrightarrow>
              ping_points out = [stored_points L w] \<and>
              request out = Some (request_head L w product sig product_brand product_id product_lang @
                 (if fst (rlz_fragment L w product (stored_points L w))
                  then ''&'' @ snd (rlz_fragment L w product (stored_points L w)) else []) @
                 request_tail L w product exclude_machine_id)) \<and>
           (has_events L w product \<longrightarrow>
              ping_points out = [aps] \<and>
              request out = Some (request_head L w product sig product_brand product_id product_lang @
                 (if fst (rlz_fragment L w product aps)
                  then ''&'' @ snd (rlz_fragment L w product aps) else []) @
                 request_tail L w product exclude_machine_id))"
proof -
  from FormRequest_success [OF assms] obtain aps sig where
    a: "access_points = Some aps" and s: "product_signature = Some sig" and
    o: "out = FormRequest_body L w product aps sig product_brand product_id product_lang
                   exclude_machine_id [Call_HasAccess kReadAccess]"
    by blast
  have p: "ping_points out = [if has_events L w product then aps else stored_points L w]"
    unfolding o FormRequest_body_ping_points by (simp add: List.map_filter_def)
  have r: "request out = Some (request_head L w product sig product_brand product_id product_lang @
           (if fst (rlz_fragment L w product (if has_events L w product then aps else stored_points L w))
            then ''&'' @ snd (rlz_fragment L w product
                               (if has_events L w product then aps else stored_points L w))
            else []) @
           request_tail L w product exclude_machine_id)"
    unfolding o by (rule FormRequest_body_request)
  show ?thesis
  proof (cases "has_events L w product")
    case True
    with a s p r show ?thesis by simp
  next
    case False
    with a s p r show ?thesis by simp
  qed
qed

theorem FormRequest_rlz_points_witness:
  "FormRequest example_lib example_world DESKTOP (Some [2]) (Some ''sig'') None None None False
      (Some []) =
     Some \<lparr>ret = True, request = Some ''/tools/pso/ping?as=sig&rep=2&rlz=I7,C1,'',
            calls = [Call_HasAccess kReadAccess, Call_GetProductEventsAsCgi DESKTOP,
                     Call_GetAccessPointRlz 1, Call_GetAccessPointRlz 2, Call_GetAccessPointRlz 3,
                     Call_GetPingParams DESKTOP [1, 3]]\<rparr> \<and>
   \<not> has_events example_lib example_world DESKTOP \<and>
   stored_points example_lib example_world = [1, 3] \<and>
   FormRequest example_lib example_world CHROME (Some [2]) (Some ''sig'') None None None False
      (Some []) =
     Some \<lparr>ret = True, request = Some ''/tools/pso/ping?as=sig&events=I7S,&rep=2&rlz=W1,&id=MID'',
            calls = [Call_HasAccess kReadAccess, Call_GetProductEventsAsCgi CHROME,
                     Call_GetPingParams CHROME [2], Call_GetMachineId]\<rparr> \<and>
   has_events example_lib example_world CHROME"
proof -
  let ?d = "\<lparr>ret = True, request = Some ''/tools/pso/ping?as=sig&rep=2&rlz=I7,C1,'',
            calls = [Call_HasAccess kReadAccess, Call_GetProductEventsAsCgi DESKTOP,
                     Call_GetAccessPointRlz 1, Call_GetAccessPointRlz 2, Call_GetAccessPointRlz 3,
                     Call_GetPingParams DESKTOP [1, 3]]\<rparr>"
  let ?c = "\<lparr>ret = True, request = Some ''/tools/pso/ping?as=sig&events=I7S,&rep=2&rlz=W1,&id=MID'',
            calls = [Call_HasAccess kReadAccess, Call_GetProductEventsAsCgi CHROME,
                     Call_GetPingParams CHROME [2], Call_GetMachineId]\<rparr>"
  have d: "FormRequest example_lib example_world DESKTOP (Some [2]) (Some ''sig'') None None None
             False (Some []) = Some ?d"
    by code_simp
  have c: "FormRequest example_lib example_world CHROME (Some [2]) (Some ''sig'') None None None
             False (Some []) = Some ?c"
    by code_simp
  have nd: "\<not> has_events example_lib example_world DESKTOP" by code_simp
  have hc: "has_events example_lib example_world CHROME" by code_simp
  have pd: "ping_points ?d = [[1, 3]]" and pc: "ping_points ?c = [[2]]"
    by (simp_all add: ping_points_def List.map_filter_def)
  have rd: "ret ?d" and rc: "ret ?c" by simp_all
  from FormRequest_rlz_points [OF d rd] nd
  have "ping_points ?d = [stored_points example_lib example_world]" by blast
  with pd have sp: "stored_points example_lib example_world = [1, 3]" by simp
  from FormRequest_rlz_points [OF c rc] hc
  have "ping_points ?c = [[2]]" by blast
  with d c nd hc sp show ?thesis by blast
qed

text \<open>The violations that the checks of lines 98 to 113 answer: no access points, no
  signature, or a brand the caller gave that differs from the active namespace. By then
  the request has been cleared, the lock taken and the store asked for read access.\<close>

lemma FormRequest_violated:
  assumes "access_points = None \<or> product_signature = None \<or>
           (brand w \<noteq> [] \<and> product_brand \<noteq> None \<and> product_brand \<noteq> Some (brand w))"
  shows "FormRequest L w product access_points product_signature product_brand product_id
           product_lang exclude_machine_id request_arg =
         Some \<lparr>ret = False,
               request = (if request_arg = None then None else Some []),
               calls = (if request_arg = None \<or> lock_failed w then []
                        else [Call_HasAccess kReadAccess])\<rparr>"
  using assms
  by (cases request_arg; cases "lock_failed w"; cases "HasAccess w kReadAccess";
      cases access_points; cases product_signature; cases product_brand)
     (auto simp: FormRequest_def GetStore_def)

text \<open>The one call whose behaviour is undefined: the arguments pass the first checks, a
  brand namespace is active, and the caller gives no brand.\<close>

lemma FormRequest_undefined_iff:
  "FormRequest L w product access_points product_signature product_brand product_id
     product_lang exclude_machine_id request_arg = None \<longleftrightarrow>
   request_arg \<noteq> None \<and> \<not> lock_failed w \<and> HasAccess w kReadAccess \<and>
   access_points \<noteq> None \<and> product_signature \<noteq> None \<and> brand w \<noteq> [] \<and> product_brand = None"
  by (cases request_arg; cases "lock_failed w"; cases "HasAccess w kReadAccess";
      cases access_points; cases product_signature; cases product_brand)
     (auto simp: FormRequest_def GetStore_def)

text \<open>Every precondition violation is either answered by one of the checks or is the
  null brand under an active namespace, with access points and signature present.\<close>

lemma precondition_violated_cases:
  "precondition_violated w access_points product_signature product_brand \<longleftrightarrow>
   (access_points = None \<or> product_signature = None \<or>
    (brand w \<noteq> [] \<and> product_brand \<noteq> None \<and> product_brand \<noteq> Some (brand w))) \<or>
   (access_points \<noteq> None \<and> product_signature \<noteq> None \<and> brand w \<noteq> [] \<and> product_brand = None)"
  by (cases product_brand) (auto simp: precondition_violated_def)

text \<open>So a call with a precondition violation returns false with the request left empty,
  unless it is the undefined one.\<close>

lemma FormRequest_violated_defined:
  assumes "precondition_violated w access_points product_signature product_brand"
    and "FormRequest L w product access_points product_signature product_brand product_id
           product_lang exclude_machine_id request_arg = Some out"
  shows "\<not> ret out \<and> request out = (if request_arg = None then None else Some [])"
proof (cases "access_points = None \<or> product_signature = None \<or>
           (brand w \<noteq> [] \<and> product_brand \<noteq> None \<and> product_brand \<noteq> Some (brand w))")
  case True
  from FormRequest_violated [OF True, of L product product_id product_lang exclude_machine_id
      request_arg] assms(2)
  show ?thesis by auto
next
  case False
  from assms(1) False have n: "access_points \<noteq> None \<and> product_signature \<noteq> None \<and> brand w \<noteq> [] \<and>
      product_brand = None"
    unfolding precondition_violated_cases by blast
  with assms(2) show ?thesis
    by (cases request_arg; cases "lock_failed w"; cases "HasAccess w kReadAccess")
       (auto simp: FormRequest_def GetStore_def)
qed

text \<open>
  C5. \<^verbatim>\<open>FormRequest\<close> is to return failure whenever a brand namespace is active and the
  brand of the caller does not equal it. With the namespace \<^verbatim>\<open>GGLS\<close> active, the lock held
  with read access, access points and a signature given and a null brand, which is a
  precondition violation, the call does not return failure: line 109 compares the
  namespace, a \<^verbatim>\<open>std::string\<close>, with the null pointer, and the behaviour of the call is
  undefined (the value \<^verbatim>\<open>None\<close> of the model). The same call with the brand \<^verbatim>\<open>TEST\<close>
  returns false with the request left empty.
\<close>

theorem FormRequest_null_brand_undefined:
  "precondition_violated (example_world\<lparr>brand := ''GGLS''\<rparr>) (Some [1]) (Some ''sig'') None \<and>
   FormRequest example_lib (example_world\<lparr>brand := ''GGLS''\<rparr>) CHROME (Some [1]) (Some ''sig'')
       None None None False (Some ''old'') = None \<and>
   FormRequest example_lib (example_world\<lparr>brand := ''GGLS''\<rparr>) CHROME (Some [1]) (Some ''sig'')
       (Some ''TEST'') None None False (Some ''old'') =
     Some \<lparr>ret = False, request = Some [], calls = [Call_HasAccess kReadAccess]\<rparr>"
proof -
  have v: "precondition_violated (example_world\<lparr>brand := ''GGLS''\<rparr>) (Some [1]) (Some ''sig'') None"
    by (simp add: precondition_violated_def)
  have f1: "FormRequest example_lib (example_world\<lparr>brand := ''GGLS''\<rparr>) CHROME (Some [1]) (Some ''sig'')
       None None None False (Some ''old'') = None"
    by code_simp
  have f2: "FormRequest example_lib (example_world\<lparr>brand := ''GGLS''\<rparr>) CHROME (Some [1]) (Some ''sig'')
       (Some ''TEST'') None None False (Some ''old'') =
     Some \<lparr>ret = False, request = Some [], calls = [Call_HasAccess kReadAccess]\<rparr>"
    by code_simp
  from v f1 f2 show ?thesis by blast
qed

text \<open>
  C9, as the claim has it: a call with a precondition violation fails with no access to
  the store attempted. It does not hold: the lock is taken and the store is asked
  \<^verbatim>\<open>HasAccess(kReadAccess)\<close> at lines 93 to 96, before any argument is checked. With every
  pointer argument but the request null, the call returns false and the store has been
  called once.
\<close>

theorem FormRequest_violation_calls_store_counterexample:
  "precondition_violated example_world None None None \<and>
   FormRequest example_lib example_world DESKTOP None None None None None True (Some ''old'') =
     Some \<lparr>ret = False, request = Some [], calls = [Call_HasAccess kReadAccess]\<rparr> \<and>
   [Call_HasAccess kReadAccess] \<noteq> []"
proof -
  have v: "precondition_violated example_world None None None"
    by (simp add: precondition_violated_def)
  have f: "FormRequest example_lib example_world DESKTOP None None None None None True (Some ''old'') =
     Some \<lparr>ret = False, request = Some [], calls = [Call_HasAccess kReadAccess]\<rparr>"
    by code_simp
  from v f show ?thesis by simp
qed

text \<open>
  C9. When \<^verbatim>\<open>FormRequest\<close> is called with null access points, a null signature, or a
  brand that differs from an active brand namespace, it returns false with the request,
  when there is one, left empty, and the calls it has made to the store by then are
  exactly these: none when the request pointer is null or
  the lock could not be taken, and otherwise the single access check
  \<^verbatim>\<open>HasAccess(kReadAccess)\<close>. No event, RLZ or ping parameter is read from the store, and the
  machine id is not asked for, before the failure is reported.
\<close>

theorem FormRequest_violation_only_checks_access:
  assumes "access_points = None \<or> product_signature = None \<or>
           (brand w \<noteq> [] \<and> product_brand \<noteq> None \<and> product_brand \<noteq> Some (brand w))"
  shows "\<exists>out. FormRequest L w product access_points product_signature product_brand product_id
                 product_lang exclude_machine_id request_arg = Some out \<and>
               \<not> ret out \<and> request out = (if request_arg = None then None else Some []) \<and>
               calls out = (if request_arg = None \<or> lock_failed w then []
                            else [Call_HasAccess kReadAccess])"
  by (simp add: FormRequest_violated [OF assms])

theorem FormRequest_violation_only_checks_access_witness:
  "brand (example_world\<lparr>brand := ''GGLS''\<rparr>) \<noteq> [] \<and>
   Some ''TEST'' \<noteq> Some (brand (example_world\<lparr>brand := ''GGLS''\<rparr>)) \<and>
   FormRequest example_lib (example_world\<lparr>brand := ''GGLS''\<rparr>) DESKTOP (Some [1, 2]) (Some ''sig'')
       (Some ''TEST'') None None True (Some ''old'') =
     Some \<lparr>ret = False, request = Some [], calls = [Call_HasAccess kReadAccess]\<rparr> \<and>
   FormRequest example_lib (example_world\<lparr>lock_failed := True\<rparr>) DESKTOP None (Some ''sig'')
       None None None True (Some ''old'') =
     Some \<lparr>ret = False, request = Some [], calls = []\<rparr>"
proof -
  let ?w = "example_world\<lparr>brand := ''GGLS''\<rparr>"
  let ?v = "example_world\<lparr>lock_failed := True\<rparr>"
  have b: "brand ?w \<noteq> [] \<and> Some ''TEST'' \<noteq> Some (brand ?w)"
    by simp
  then have h: "Some [1, 2] = (None :: AccessPoint list option) \<or> Some ''sig'' = None \<or>
      (brand ?w \<noteq> [] \<and> Some ''TEST'' \<noteq> None \<and> Some ''TEST'' \<noteq> Some (brand ?w))"
    by simp
  have l: "\<not> lock_failed ?w" by (simp add: example_world_def)
  from FormRequest_violation_only_checks_access [OF h, of example_lib DESKTOP None None True
      "Some ''old''"] l
  have f: "FormRequest example_lib ?w DESKTOP (Some [1, 2]) (Some ''sig'') (Some ''TEST'') None None
       True (Some ''old'') =
     Some \<lparr>ret = False, request = Some [], calls = [Call_HasAccess kReadAccess]\<rparr>"
    by auto
  have h': "(None :: AccessPoint list option) = None \<or> Some ''sig'' = None \<or>
      (brand ?v \<noteq> [] \<and> (None :: string option) \<noteq> None \<and> None \<noteq> Some (brand ?v))"
    by simp
  have l': "lock_failed ?v" by simp
  from FormRequest_violation_only_checks_access [OF h', of example_lib DESKTOP None None True
      "Some ''old''"] l'
  have g: "FormRequest example_lib ?v DESKTOP None (Some ''sig'') None None None True (Some ''old'') =
     Some \<lparr>ret = False, request = Some [], calls = []\<rparr>"
    by auto
  from b f g show ?thesis by blast
qed

section \<open>Reading the RLZ of an access point\<close>

lemma RegKeyReadValue_rlzs:
  "(case GetAccessPointRlzsRegKey b KEY_READ r of
      (ok, key, r1) \<Rightarrow> RegKeyReadValue key name n r1) =
   (case stored_rlz r b name of
      None \<Rightarrow> (False, [], n)
    | Some s \<Rightarrow> if n < length s then (False, [], length s) else (True, take (n - 1) s, n))"
proof (cases "key_exists r (rlzs_key b)")
  case True
  then show ?thesis
    by (simp add: GetAccessPointRlzsRegKey_def GetRegKey_read rlzs_key_def [symmetric]
        RegKeyReadValue_def RegKey_ReadString_def stored_rlz_def
        split: option.splits regval.splits)
next
  case False
  then show ?thesis
    by (simp add: GetAccessPointRlzsRegKey_def GetRegKey_read rlzs_key_def [symmetric]
        RegKeyReadValue_def RegKey_ReadString_def stored_rlz_def key_values_missing)
qed

lemma ReadAccessPointRlz_eq:
  "ReadAccessPointRlz L b ap rlz rlz_size r =
     (case GetAccessPointName L ap of
        None \<Rightarrow> (False, rlz)
      | Some name \<Rightarrow>
          (case stored_rlz r b name of
             None \<Rightarrow> (True, [])
           | Some s \<Rightarrow> if rlz_size < length s then (False, [])
                       else (True, take (rlz_size - 1) s)))"
proof (cases "GetAccessPointName L ap")
  case None
  then show ?thesis by (simp add: ReadAccessPointRlz_def)
next
  case (Some name)
  obtain ok key r1 where g: "GetAccessPointRlzsRegKey b KEY_READ r = (ok, key, r1)"
    by (cases "GetAccessPointRlzsRegKey b KEY_READ r")
  from RegKeyReadValue_rlzs [where b = b and r = r and name = name and n = rlz_size] g
  have "RegKeyReadValue key name rlz_size r1 =
          (case stored_rlz r b name of
             None \<Rightarrow> (False, [], rlz_size)
           | Some s \<Rightarrow> if rlz_size < length s then (False, [], length s)
                       else (True, take (rlz_size - 1) s, rlz_size))"
    by simp
  with Some g show ?thesis
    by (simp add: ReadAccessPointRlz_def split: option.splits)
qed

text \<open>So an access point holds an RLZ, in the sense of \<open>holds_rlz\<close>, when its name is
  known and the registry holds a non-empty string for it that fits the buffer.\<close>

lemma holds_rlz_iff:
  "holds_rlz L w ap \<longleftrightarrow>
     (\<exists>name s. GetAccessPointName L ap = Some name \<and>
        stored_rlz (reg w) (brand w) name = Some s \<and> s \<noteq> [] \<and>
        length s \<le> kMaxRlzLength L + 1 \<and> 0 < kMaxRlzLength L)"
  by (auto simp: holds_rlz_def ReadAccessPointRlz_eq split: option.splits)

text \<open>
  C10. Into a buffer that has room for at least the terminator, \<^verbatim>\<open>ReadAccessPointRlz\<close>
  for a known access point returns true with the empty string when the registry holds no
  RLZ string for it (no such value, or no such key), and true with the stored string when
  that is shorter than the buffer. It returns false only for an unknown access point, or
  when the stored string is longer than the buffer.
\<close>

theorem ReadAccessPointRlz_result:
  assumes "0 < rlz_size"
  shows "(\<forall>name. GetAccessPointName L ap = Some name \<and> stored_rlz r b name = None \<longrightarrow>
            ReadAccessPointRlz L b ap rlz rlz_size r = (True, [])) \<and>
         (\<forall>name s. GetAccessPointName L ap = Some name \<and> stored_rlz r b name = Some s \<and>
            length s < rlz_size \<longrightarrow> ReadAccessPointRlz L b ap rlz rlz_size r = (True, s)) \<and>
         (\<not> fst (ReadAccessPointRlz L b ap rlz rlz_size r) \<longleftrightarrow>
            GetAccessPointName L ap = None \<or>
            (\<exists>name s. GetAccessPointName L ap = Some name \<and> stored_rlz r b name = Some s \<and>
                rlz_size < length s))"
  using assms by (auto simp: ReadAccessPointRlz_eq split: option.splits)

theorem ReadAccessPointRlz_result_witness:
  "0 < (65::nat) \<and>
   GetAccessPointName example_lib 2 = Some ''W1'' \<and> stored_rlz example_registry [] ''W1'' = None \<and>
   ReadAccessPointRlz example_lib [] 2 ''old'' 65 example_registry = (True, []) \<and>
   GetAccessPointName example_lib 1 = Some ''I7'' \<and>
   stored_rlz example_registry [] ''I7'' = Some ''1R1_'' \<and>
   ReadAccessPointRlz example_lib [] 1 ''old'' 65 example_registry = (True, ''1R1_'') \<and>
   \<not> fst (ReadAccessPointRlz example_lib [] 1 ''old'' 3 example_registry) \<and>
   GetAccessPointName example_lib 7 = None \<and>
   \<not> fst (ReadAccessPointRlz example_lib [] 7 ''old'' 65 example_registry)"
proof -
  have n2: "GetAccessPointName example_lib 2 = Some ''W1''"
    and n1: "GetAccessPointName example_lib 1 = Some ''I7''"
    and n7: "GetAccessPointName example_lib 7 = None"
    by (simp_all add: example_lib_def example_name_def)
  have s2: "stored_rlz example_registry [] ''W1'' = None"
    and s1: "stored_rlz example_registry [] ''I7'' = Some ''1R1_''"
    by code_simp+
  have p65: "0 < (65::nat)" and p3: "0 < (3::nat)" by simp_all
  from ReadAccessPointRlz_result [OF p65, of example_lib 2 example_registry "[]" "''old''"] n2 s2
  have a: "ReadAccessPointRlz example_lib [] 2 ''old'' 65 example_registry = (True, [])"
    by blast
  from ReadAccessPointRlz_result [OF p65, of example_lib 1 example_registry "[]" "''old''"] n1 s1
  have b: "ReadAccessPointRlz example_lib [] 1 ''old'' 65 example_registry = (True, ''1R1_'')"
    by simp
  from ReadAccessPointRlz_result [OF p3, of example_lib 1 example_registry "[]" "''old''"] n1 s1
  have c: "\<not> fst (ReadAccessPointRlz example_lib [] 1 ''old'' 3 example_registry)"
    by simp
  from ReadAccessPointRlz_result [OF p65, of example_lib 7 example_registry "[]" "''old''"] n7
  have d: "\<not> fst (ReadAccessPointRlz example_lib [] 7 ''old'' 65 example_registry)"
    by simp
  from p65 n2 s2 a n1 s1 b c n7 d show ?thesis by blast
qed

section \<open>Unknown identifiers\<close>

text \<open>The operations on events reject a product outside the enumeration before they
  touch the registry, and the operations on RLZ values do so for an unknown access
  point.\<close>

lemma GetEventsRegKey_unknown:
  "GetProductName product = None \<Longrightarrow>
   GetEventsRegKey b event_type (Some product) access r = (False, None, r)"
  by (simp add: GetEventsRegKey_def)

lemma unknown_product_rejected:
  assumes "GetProductName product = None"
  shows "AddProductEvent b product e r = (False, r)"
    and "AddStatefulEvent b product e r = (False, r)"
    and "ClearAllProductEvents b product r = (False, r)"
    and "ClearAllStatefulEvents b product r = (False, r)"
    and "ReadProductEvents b product events r = (False, events)"
  using assms
  by (simp_all add: AddProductEvent_def AddStatefulEvent_def ClearAllProductEvents_def
      ClearAllStatefulEvents_def ClearAllProductEventValues_def ReadProductEvents_def
      GetEventsRegKey_unknown RegKey_WriteValue_def RegKey_Valid_def)

lemma unknown_access_point_rejected:
  assumes "GetAccessPointName L ap = None"
  shows "WriteAccessPointRlz L b ap new_rlz r = (False, r)"
    and "ReadAccessPointRlz L b ap rlz rlz_size r = (False, rlz)"
    and "ClearAccessPointRlz L b ap r = (False, r)"
  using assms
  by (simp_all add: WriteAccessPointRlz_def ReadAccessPointRlz_def ClearAccessPointRlz_def)

text \<open>\<^verbatim>\<open>WritePingTime\<close> does not: for a product outside the enumeration it creates
  the ping times key and writes the time as the key's default value, on every
  registry.\<close>

lemma WritePingTime_unknown_product_writes:
  assumes "GetProductName product = None"
  shows "fst (WritePingTime b product t r)"
    and "key_exists (snd (WritePingTime b product t r)) (ping_times_key b)"
    and "map_of (key_values (snd (WritePingTime b product t r)) (ping_times_key b)) [] =
           Some (REG_QWORD t)"
  using assms
  by (simp_all add: WritePingTime_def GetPingTimesRegKey_def GetRegKey_write RegKey_WriteValue_def
      ping_times_key_def key_exists_def key_values_def update_conv' map_of_create_path
      value_name_def)

text \<open>
  C8 says that every store operation given an unknown product or access point fails at
  once and leaves the registry as it was, no key created. The ping time operations do
  not look at what \<^verbatim>\<open>GetProductName\<close> returns: on an empty registry and a product
  outside the enumeration, \<^verbatim>\<open>WritePingTime\<close> returns true, having created the ping times
  key and written the time as the key's default value, and \<^verbatim>\<open>ClearPingTime\<close> returns
  true, having created the key. \<^verbatim>\<open>ClearProductEvent\<close> leaves the registry alone but
  returns true.
\<close>

theorem unknown_product_ping_time:
  "GetProductName (OTHER_PRODUCT 0) = None \<and>
   WritePingTime [] (OTHER_PRODUCT 0) 5 empty_registry =
     (True,
      \<lparr>hive =
         [([''Software''], []),
          ([''Software'', ''Google''], []),
          ([''Software'', ''Google'', ''Common''], []),
          ([''Software'', ''Google'', ''Common'', ''Rlz''], []),
          ([''Software'', ''Google'', ''Common'', ''Rlz'', ''PTimes''], [([], REG_QWORD 5)])],
       undeletable_values = [], undeletable_keys = []\<rparr>) \<and>
   ClearPingTime [] (OTHER_PRODUCT 0) empty_registry =
     (True,
      \<lparr>hive =
         [([''Software''], []),
          ([''Software'', ''Google''], []),
          ([''Software'', ''Google'', ''Common''], []),
          ([''Software'', ''Google'', ''Common'', ''Rlz''], []),
          ([''Software'', ''Google'', ''Common'', ''Rlz'', ''PTimes''], [])],
       undeletable_values = [], undeletable_keys = []\<rparr>) \<and>
   ClearProductEvent [] (OTHER_PRODUCT 0) ''I7S'' empty_registry = (True, empty_registry)"
  by code_simp

section \<open>Clearing and verifying\<close>

text \<open>When the store still reads the entry after the deletion, \<^verbatim>\<open>ClearPingTime\<close>,
  \<^verbatim>\<open>ClearProductEvent\<close> and the two operations that clear all events of a product
  return false.\<close>

lemma ClearPingTime_detects:
  "ReadPingTime b p (snd (ClearPingTime b p r)) \<noteq> None \<Longrightarrow> \<not> fst (ClearPingTime b p r)"
  using ClearPingTime_then_Read [of b p r] by auto

lemma ClearProductEvent_detects:
  assumes "GetProductName p = Some name"
    and "map_of (key_values (snd (ClearProductEvent b p e r)) (events_key b name)) e =
           Some (REG_DWORD d)"
  shows "\<not> fst (ClearProductEvent b p e r)"
  using assms
  by (auto simp: ClearProductEvent_def GetEventsRegKey_def wants_create_KEY_WRITE RegKey_Create_def
      RegKey_ReadValueDW_def RegKey_ReadValue_def events_key_def Let_def
      split: prod.splits if_splits)

lemma ClearAllProductEventValues_detects:
  assumes "GetProductName p = Some name"
    and "key_exists (snd (ClearAllProductEventValues b p k r))
           (AppendBrandToString b (kLibKeyName @ [k]) @ [name])"
  shows "\<not> fst (ClearAllProductEventValues b p k r)"
  using assms
  by (auto simp: ClearAllProductEventValues_def GetEventsRegKey_def wants_create_KEY_WRITE
      RegKey_Create_def RegKey_ctor_def not_wants_create_KEY_READ RegKey_Open_def RegKey_Valid_def
      Let_def split: prod.splits if_splits)

text \<open>\<^verbatim>\<open>ClearAccessPointRlz\<close> does not: whenever an RLZ string is left under the access
  point's name, it returns true.\<close>

lemma ReadValueDW_string:
  "map_of (key_values r p) name = Some (REG_SZ s) \<Longrightarrow>
   fst (RegKey_ReadValueDW (Some p) name r) \<noteq> ERROR_SUCCESS"
  by (simp add: RegKey_ReadValueDW_def RegKey_ReadValue_def)

lemma ClearAccessPointRlz_passes_remaining_string:
  assumes "GetAccessPointName L ap = Some name"
    and "stored_rlz (snd (ClearAccessPointRlz L b ap r)) b name = Some s"
  shows "fst (ClearAccessPointRlz L b ap r)"
proof -
  let ?r1 = "r\<lparr>hive := create_path (rlzs_key b) (hive r)\<rparr>"
  obtain st r2 where d: "RegKey_DeleteValue (Some (rlzs_key b)) name ?r1 = (st, r2)"
    by (cases "RegKey_DeleteValue (Some (rlzs_key b)) name ?r1")
  from assms(1) d have e: "snd (ClearAccessPointRlz L b ap r) = r2"
    by (simp add: ClearAccessPointRlz_def GetAccessPointRlzsRegKey_def GetRegKey_write rlzs_key_def)
  from assms(2) have "map_of (key_values r2 (rlzs_key b)) name = Some (REG_SZ s)"
    by (simp add: e stored_rlz_def split: option.splits regval.splits)
  from ReadValueDW_string [OF this] assms(1) d show ?thesis
    by (simp add: ClearAccessPointRlz_def GetAccessPointRlzsRegKey_def GetRegKey_write rlzs_key_def)
qed

text \<open>
  C6 says that every clear operation reads the entry again after the deletion and returns
  false when it is still there. \<^verbatim>\<open>ClearAccessPointRlz\<close> reads it again as a
  \<^verbatim>\<open>DWORD\<close>, and an RLZ is a string, so that read never succeeds: on a backing store that
  leaves the entries in place, the other clear operations return false, and
  \<^verbatim>\<open>ClearAccessPointRlz\<close> returns true with the RLZ still readable.
\<close>

theorem ClearAccessPointRlz_misses_stuck_value:
  "ClearPingTime [] CHROME stuck_registry = (False, stuck_registry) \<and>
   ClearProductEvent [] CHROME ''I7S'' stuck_registry = (False, stuck_registry) \<and>
   ClearAllProductEvents [] CHROME stuck_registry = (False, stuck_registry) \<and>
   ClearAccessPointRlz example_lib [] 1 stuck_registry = (True, stuck_registry) \<and>
   ReadAccessPointRlz example_lib [] 1 [] 65 stuck_registry = (True, ''1R1_'')"
  by code_simp

section \<open>Garbage collection\<close>

lemma create_path_Nil [simp]: "create_path [] h = h"
  by (simp add: create_path_def)

lemma DeleteKeyIfEmpty_HKCU:
  "k \<noteq> [] \<Longrightarrow> VERIFY (DeleteKeyIfEmpty HKEY_CURRENT_USER (Some k) r) = gc_step k r"
  by (simp add: VERIFY_def DeleteKeyIfEmpty_def HKEY_CURRENT_USER_def RegKey_ctor_def
      not_wants_create_KEY_READ wants_create_KEY_WRITE RegKey_Open_def RegKey_Create_def
      RegKey_Valid_def RegistryKeyIterator_SubkeyCount_def RegistryValueIterator_ValueCount_def
      RegKey_DeleteKey_def gc_step_def split: option.splits)

lemma key_names_nonempty:
  "kLibKeyName \<noteq> []" "kGoogleCommonKeyName \<noteq> []" "kGoogleKeyName \<noteq> []"
  by (simp_all add: kLibKeyName_def kGoogleCommonKeyName_def kGoogleKeyName_def)

lemma CollectGarbage_fold: "CollectGarbage b r = fold gc_step (gc_keys b) r"
  by (simp add: CollectGarbage_def gc_keys_def subkeys_def DeleteKeyIfEmpty_HKCU Let_def
      key_names_nonempty)

lemma key_exists_iff: "key_exists r k \<longleftrightarrow> k \<in> fst ` set (hive r)"
  by (simp add: key_exists_def map_of_eq_None_iff)

lemma wf_registry_iff:
  "wf_registry r \<longleftrightarrow> (\<forall>k p. key_exists r k \<and> prefix p k \<and> p \<noteq> [] \<longrightarrow> key_exists r p)"
  by (auto simp: wf_registry_def list_all_iff set_tl_prefixes key_exists_iff)

lemma SubkeyCount_0: "SubkeyCount r p = 0 \<longleftrightarrow> (\<forall>c. is_child p c \<longrightarrow> \<not> key_exists r c)"
  by (auto simp: SubkeyCount_def filter_empty_conv key_exists_iff)

lemma ValueCount_0: "ValueCount r p = 0 \<longleftrightarrow> key_values r p = []"
  by (simp add: ValueCount_def)

text \<open>In a well-formed registry a key without children has no descendants at all.\<close>

lemma no_child_no_descendant:
  assumes "wf_registry r" and "\<forall>c. is_child p c \<longrightarrow> \<not> key_exists r c"
    and "strict_prefix p q"
  shows "\<not> key_exists r q"
proof
  assume q: "key_exists r q"
  from \<open>strict_prefix p q\<close> obtain x xs where qx: "q = p @ x # xs"
    by (auto simp: strict_prefix_def prefix_def) (metis list.exhaust append_Nil2)
  have "prefix (p @ [x]) q" by (simp add: qx)
  with assms(1) q have "key_exists r (p @ [x])"
    unfolding wf_registry_iff by blast
  moreover have "is_child p (p @ [x])" by (simp add: is_child_def)
  ultimately show False using assms(2) by blast
qed

lemma key_exists_remove_tree:
  "key_exists (r\<lparr>hive := remove_tree k (hive r)\<rparr>) q \<longleftrightarrow> \<not> prefix k q \<and> key_exists r q"
  by (simp add: key_exists_def map_of_remove_tree)

lemma key_values_remove_tree:
  "key_values (r\<lparr>hive := remove_tree k (hive r)\<rparr>) q = (if prefix k q then [] else key_values r q)"
  by (simp add: key_values_def map_of_remove_tree)

lemma gc_step_undeletable [simp]:
  "undeletable_keys (gc_step k r) = undeletable_keys r"
  "undeletable_values (gc_step k r) = undeletable_values r"
  by (simp_all add: gc_step_def)

lemma gc_step_exists: "key_exists (gc_step k r) q \<Longrightarrow> key_exists r q"
  by (simp add: gc_step_def key_exists_remove_tree split: if_splits)

lemma gc_step_removed:
  assumes "wf_registry r" and "key_exists r q" and "\<not> key_exists (gc_step k r) q"
  shows "q = k \<and> key_values r k = [] \<and> (\<forall>c. is_child k c \<longrightarrow> \<not> key_exists r c) \<and>
         map_of (undeletable_keys r) k = None"
proof -
  from assms(2,3) have c: "key_exists r k" "SubkeyCount r k = 0" "ValueCount r k = 0"
      "map_of (undeletable_keys r) k = None" and p: "prefix k q"
    by (auto simp: gc_step_def key_exists_remove_tree split: if_splits)
  from c(2) have nc: "\<forall>c. is_child k c \<longrightarrow> \<not> key_exists r c" by (simp add: SubkeyCount_0)
  have "q = k"
  proof (rule ccontr)
    assume "q \<noteq> k"
    with p have "strict_prefix k q" by (simp add: strict_prefix_def)
    from no_child_no_descendant [OF assms(1) nc this] assms(2) show False by simp
  qed
  with c nc show ?thesis by (simp add: ValueCount_0)
qed

lemma gc_step_kept:
  assumes "key_exists (gc_step k r) k"
  shows "key_values r k \<noteq> [] \<or> (\<exists>c. is_child k c \<and> key_exists r c) \<or>
         map_of (undeletable_keys r) k \<noteq> None"
  using assms
  by (auto simp: gc_step_def key_exists_remove_tree SubkeyCount_0 ValueCount_0 split: if_splits)

lemma gc_step_values:
  assumes "wf_registry r"
  shows "key_values (gc_step k r) q = key_values r q"
proof (cases "key_exists r q \<and> \<not> key_exists (gc_step k r) q")
  case True
  with gc_step_removed [OF assms, of q k] have "q = k" "key_values r k = []" by simp_all
  moreover from True have "key_values (gc_step k r) q = []"
    by (simp add: key_exists_def key_values_def)
  ultimately show ?thesis by simp
next
  case False
  show ?thesis
  proof (cases "key_exists r q")
    case True
    with False have "key_exists (gc_step k r) q" by simp
    then show ?thesis
      by (auto simp: gc_step_def key_exists_remove_tree key_values_remove_tree split: if_splits)
  next
    case nq: False
    then have "\<not> key_exists (gc_step k r) q" using gc_step_exists by blast
    with nq show ?thesis by (simp add: key_exists_def key_values_def)
  qed
qed

lemma gc_step_wf:
  assumes "wf_registry r"
  shows "wf_registry (gc_step k r)"
  unfolding wf_registry_iff
proof (intro allI impI)
  fix q p
  assume a: "key_exists (gc_step k r) q \<and> prefix p q \<and> p \<noteq> []"
  then have q: "key_exists r q" using gc_step_exists by blast
  with a assms have p: "key_exists r p" unfolding wf_registry_iff by blast
  show "key_exists (gc_step k r) p"
  proof (rule ccontr)
    assume n: "\<not> key_exists (gc_step k r) p"
    from gc_step_removed [OF assms p n] have pk: "p = k" by simp
    with a have "prefix k q" by simp
    with a n p show False
      by (auto simp: gc_step_def key_exists_remove_tree pk split: if_splits)
  qed
qed

lemma is_child_neq: "is_child k c \<Longrightarrow> c \<noteq> k"
proof
  assume "is_child k c" and "c = k"
  then have ne: "c \<noteq> []" and b: "butlast c = c" by (simp_all add: is_child_def)
  from b have "length (butlast c) = length c" by (simp only:)
  then have "length c - 1 = length c" by (simp only: length_butlast)
  with ne show False by (cases c) simp_all
qed

lemma fold_gc_undeletable [simp]:
  "undeletable_keys (fold gc_step ks r) = undeletable_keys r"
  by (induction ks arbitrary: r) simp_all

lemma fold_gc_exists: "key_exists (fold gc_step ks r) q \<Longrightarrow> key_exists r q"
  by (induction ks arbitrary: r) (auto dest: gc_step_exists)

lemma fold_gc_wf: "wf_registry r \<Longrightarrow> wf_registry (fold gc_step ks r)"
  by (induction ks arbitrary: r) (simp_all add: gc_step_wf)

lemma fold_gc_values: "wf_registry r \<Longrightarrow> key_values (fold gc_step ks r) q = key_values r q"
  by (induction ks arbitrary: r) (simp_all add: gc_step_wf gc_step_values)

lemma fold_gc_removed:
  assumes "wf_registry r" and "key_exists r q" and "\<not> key_exists (fold gc_step ks r) q"
  shows "q \<in> set ks \<and> key_values r q = [] \<and>
         (\<forall>c. is_child q c \<longrightarrow> \<not> key_exists (fold gc_step ks r) c) \<and>
         map_of (undeletable_keys r) q = None"
  using assms
proof (induction ks arbitrary: r)
  case Nil
  then show ?case by simp
next
  case (Cons k ks)
  show ?case
  proof (cases "key_exists (gc_step k r) q")
    case True
    from Cons.IH [OF gc_step_wf [OF Cons.prems(1)] True] Cons.prems(3)
    show ?thesis
      by (simp add: gc_step_values [OF Cons.prems(1)])
  next
    case False
    from gc_step_removed [OF Cons.prems(1,2) False]
    have e: "q = k" "key_values r k = []" "\<forall>c. is_child k c \<longrightarrow> \<not> key_exists r c"
      "map_of (undeletable_keys r) k = None" by simp_all
    have "\<not> key_exists (fold gc_step (k # ks) r) c" if "is_child q c" for c
    proof
      assume "key_exists (fold gc_step (k # ks) r) c"
      then have "key_exists r c"
        using fold_gc_exists by blast
      with e(1,3) that show False by blast
    qed
    with e show ?thesis by simp
  qed
qed

lemma fold_gc_kept:
  assumes "wf_registry r" and "gc_ordered ks" and "q \<in> set ks"
    and "key_exists (fold gc_step ks r) q"
  shows "key_values r q \<noteq> [] \<or> (\<exists>c. is_child q c \<and> key_exists (fold gc_step ks r) c) \<or>
         map_of (undeletable_keys r) q \<noteq> None"
  using assms
proof (induction ks arbitrary: r)
  case Nil
  then show ?case by simp
next
  case (Cons k ks)
  have wf1: "wf_registry (gc_step k r)" by (rule gc_step_wf [OF Cons.prems(1)])
  have ex1: "key_exists (fold gc_step ks (gc_step k r)) q" using Cons.prems(4) by simp
  show ?case
  proof (cases "q \<in> set ks")
    case True
    from Cons.IH [OF wf1 _ True ex1] Cons.prems(2)
    show ?thesis by (simp add: gc_step_values [OF Cons.prems(1)])
  next
    case False
    with Cons.prems(3) have qk: "q = k" by simp
    from ex1 have "key_exists (gc_step k r) k" unfolding qk by (rule fold_gc_exists)
    from gc_step_kept [OF this]
    consider "key_values r k \<noteq> []" | c where "is_child k c" "key_exists r c"
      | "map_of (undeletable_keys r) k \<noteq> None"
      by blast
    then show ?thesis
    proof cases
      case 1
      then show ?thesis by (simp add: qk)
    next
      case 2
      have "key_exists (fold gc_step (k # ks) r) c"
      proof (rule ccontr)
        assume "\<not> key_exists (fold gc_step (k # ks) r) c"
        from fold_gc_removed [OF Cons.prems(1) 2(2) this] have "c \<in> set (k # ks)" by simp
        moreover from 2(1) have "c \<noteq> k" by (rule is_child_neq)
        moreover from Cons.prems(2) 2(1) have "c \<notin> set ks" by (auto simp: list_all_iff)
        ultimately show False by simp
      qed
      with 2(1) show ?thesis unfolding qk by blast
    next
      case 3
      then show ?thesis by (simp add: qk)
    qed
  qed
qed

lemma gc_keys_ordered: "gc_ordered (gc_keys b)"
  by (simp add: gc_keys_def subkeys_def AppendBrandToString_def is_child_def kLibKeyName_def
      kGoogleCommonKeyName_def kGoogleKeyName_def kRlzsSubkeyName_def kEventsSubkeyName_def
      kStatefulEventsSubkeyName_def kPingTimesSubkeyName_def)

text \<open>The empty registry is well-formed, and every operation of \<^verbatim>\<open>RegKey\<close> that
  changes the registry keeps it so: the store never leaves the well-formed registries.\<close>

lemma key_exists_create:
  "key_exists (r\<lparr>hive := create_path p (hive r)\<rparr>) q \<longleftrightarrow>
     key_exists r q \<or> (q \<noteq> [] \<and> prefix q p)"
  by (auto simp: key_exists_def map_of_create_path)

lemma key_exists_update:
  "key_exists r p \<Longrightarrow> key_exists (r\<lparr>hive := AList.update p vs (hive r)\<rparr>) q \<longleftrightarrow> key_exists r q"
  by (auto simp: key_exists_def update_conv')

lemma wf_empty_registry: "wf_registry empty_registry"
  by (simp add: wf_registry_def empty_registry_def)

lemma wf_RegKey_Create:
  assumes "wf_registry r"
  shows "wf_registry (snd (snd (RegKey_Create p access r)))"
  using assms unfolding wf_registry_iff RegKey_Create_def
  by (auto simp: key_exists_create intro: prefix_order.trans)

lemma wf_RegKey_WriteValue:
  assumes "wf_registry r"
  shows "wf_registry (snd (RegKey_WriteValue key name v r))"
  using assms unfolding wf_registry_iff RegKey_WriteValue_def
  by (auto simp: key_exists_update split: option.splits)

lemma key_exists_DeleteValue:
  "key_exists (snd (RegKey_DeleteValue key name r)) q \<longleftrightarrow> key_exists r q"
  by (auto simp: RegKey_DeleteValue_def key_exists_def key_values_def update_conv'
      split: option.splits)

lemma wf_RegKey_DeleteValue:
  assumes "wf_registry r"
  shows "wf_registry (snd (RegKey_DeleteValue key name r))"
  using assms unfolding wf_registry_iff by (simp add: key_exists_DeleteValue)

lemma wf_RegKey_DeleteKey:
  assumes "wf_registry r"
  shows "wf_registry (snd (RegKey_DeleteKey key name r))"
  using assms unfolding wf_registry_iff RegKey_DeleteKey_def
  by (auto simp: key_exists_remove_tree split: option.splits intro: prefix_order.trans)

text \<open>
  C7. On a well-formed registry \<^verbatim>\<open>CollectGarbage\<close> creates no key and changes no value,
  and a key it removes is one of the keys it goes through (the four containers of the
  active namespace, then the library key and its two parents), held no value, has no child
  key left, and was not refused by the system: a key with a value or with a remaining
  child is never removed, whatever was removed below it. Every one of those keys that is
  still there afterwards holds a value, has a child or was refused, so a deletion that fails
  does not keep the keys after it from being collected.
\<close>

theorem CollectGarbage_only_empty_keys:
  assumes "wf_registry r"
  shows "(\<forall>q. key_exists (CollectGarbage b r) q \<longrightarrow> key_exists r q) \<and>
         (\<forall>q. key_values (CollectGarbage b r) q = key_values r q) \<and>
         (\<forall>q. key_exists r q \<and> \<not> key_exists (CollectGarbage b r) q \<longrightarrow>
            q \<in> set (gc_keys b) \<and> key_values r q = [] \<and>
            (\<forall>c. is_child q c \<longrightarrow> \<not> key_exists (CollectGarbage b r) c) \<and>
            map_of (undeletable_keys r) q = None) \<and>
         (\<forall>q. q \<in> set (gc_keys b) \<and> key_exists (CollectGarbage b r) q \<longrightarrow>
            key_values r q \<noteq> [] \<or> (\<exists>c. is_child q c \<and> key_exists (CollectGarbage b r) c) \<or>
            map_of (undeletable_keys r) q \<noteq> None)"
  unfolding CollectGarbage_fold
  using fold_gc_exists fold_gc_values [OF assms] fold_gc_removed [OF assms]
    fold_gc_kept [OF assms gc_keys_ordered]
  by blast

theorem CollectGarbage_only_empty_keys_witness:
  "wf_registry gc_registry \<and>
   \<not> fst (DeleteKeyIfEmpty HKEY_CURRENT_USER
            (Some [''Software'', ''Google'', ''Common'', ''Rlz'', ''RLZs'']) gc_registry) \<and>
   CollectGarbage [] gc_registry =
     \<lparr>hive =
        [([''Software''], []),
         ([''Software'', ''Google''], []),
         ([''Software'', ''Google'', ''Common''], []),
         ([''Software'', ''Google'', ''Common'', ''Rlz''], []),
         ([''Software'', ''Google'', ''Common'', ''Rlz'', ''RLZs''], []),
         ([''Software'', ''Google'', ''Common'', ''Rlz'', ''Events''], []),
         ([''Software'', ''Google'', ''Common'', ''Rlz'', ''Events'', ''C''], [])],
      undeletable_values = [],
      undeletable_keys =
        [([''Software'', ''Google'', ''Common'', ''Rlz'', ''RLZs''], ERROR_ACCESS_DENIED)]\<rparr> \<and>
   key_exists gc_registry [''Software'', ''Google'', ''Common'', ''Rlz'', ''PTimes''] \<and>
   \<not> key_exists (CollectGarbage [] gc_registry)
        [''Software'', ''Google'', ''Common'', ''Rlz'', ''PTimes''] \<and>
   [''Software'', ''Google'', ''Common'', ''Rlz'', ''PTimes''] \<in> set (gc_keys []) \<and>
   key_values gc_registry [''Software'', ''Google'', ''Common'', ''Rlz'', ''PTimes''] = [] \<and>
   key_exists (CollectGarbage [] gc_registry) [''Software'', ''Google'', ''Common'', ''Rlz''] \<and>
   is_child [''Software'', ''Google'', ''Common'', ''Rlz'']
            [''Software'', ''Google'', ''Common'', ''Rlz'', ''Events''] \<and>
   key_exists (CollectGarbage [] gc_registry)
      [''Software'', ''Google'', ''Common'', ''Rlz'', ''Events'']"
proof -
  let ?p = "[''Software'', ''Google'', ''Common'', ''Rlz'', ''PTimes'']"
  have wf: "wf_registry gc_registry" by code_simp
  have cg: "CollectGarbage [] gc_registry =
     \<lparr>hive =
        [([''Software''], []),
         ([''Software'', ''Google''], []),
         ([''Software'', ''Google'', ''Common''], []),
         ([''Software'', ''Google'', ''Common'', ''Rlz''], []),
         ([''Software'', ''Google'', ''Common'', ''Rlz'', ''RLZs''], []),
         ([''Software'', ''Google'', ''Common'', ''Rlz'', ''Events''], []),
         ([''Software'', ''Google'', ''Common'', ''Rlz'', ''Events'', ''C''], [])],
      undeletable_values = [],
      undeletable_keys =
        [([''Software'', ''Google'', ''Common'', ''Rlz'', ''RLZs''], ERROR_ACCESS_DENIED)]\<rparr>"
    by code_simp
  have d: "\<not> fst (DeleteKeyIfEmpty HKEY_CURRENT_USER
            (Some [''Software'', ''Google'', ''Common'', ''Rlz'', ''RLZs'']) gc_registry)"
    by code_simp
  have b: "key_exists gc_registry ?p" by code_simp
  have a: "\<not> key_exists (CollectGarbage [] gc_registry) ?p" by code_simp
  have l: "key_exists (CollectGarbage [] gc_registry) [''Software'', ''Google'', ''Common'', ''Rlz'']"
    and c: "is_child [''Software'', ''Google'', ''Common'', ''Rlz'']
            [''Software'', ''Google'', ''Common'', ''Rlz'', ''Events'']"
    and e: "key_exists (CollectGarbage [] gc_registry)
              [''Software'', ''Google'', ''Common'', ''Rlz'', ''Events'']"
    by code_simp+
  from CollectGarbage_only_empty_keys [OF wf, of "[]"] b a
  have "?p \<in> set (gc_keys []) \<and> key_values gc_registry ?p = []"
    by blast
  with wf d cg b a l c e show ?thesis by blast
qed

end
